theory Spec2Isabelle
  imports Complex_Main "HOL-Library.Sublist"
begin

section \<open>The training loop of \<open>AccelerateRLModel.learn\<close>\<close>

text \<open>
  Source: \<open>src/trlx/model/accelerate_base_model.py\<close>, \<open>learn\<close> (lines 203--256).

  The loop calls collaborators that the class leaves abstract (\<open>loss\<close>, the two callbacks) or
  that live in other libraries (the optimizer, the scheduler, the progress bar). The model
  records every such call, in order, in a trace; the calls themselves are taken to return.
  \<open>save\<close> and \<open>evaluate\<close> carry the value that \<open>iter_count\<close> has when they are called.
\<close>

text \<open>The exceptions the modelled code can raise; \<open>torch\<close> reports its refusals as \<open>RuntimeError\<close>.\<close>

datatype failure = NegativeOutputSize | EmptyTensorList | SizesMustMatch

datatype error = ZeroDivisionError | TypeError | RuntimeError failure | IndexError

datatype 'b event =
    PrepareLearning
  | Loss 'b
  | Backward
  | OptStep
  | ZeroGrad
  | SchedulerStep
  | Save int
  | Evaluate int
  | Log int
  | TbarUpdate
  | PostBackwardCallback
  | PostEpochCallback

text \<open>The mutable part of \<open>self\<close> that \<open>learn\<close> touches: the counter, and the calls made so far.\<close>

record 'b learner =
  iter_count :: int
  trace :: "'b event list"

text \<open>
  What \<open>learn\<close> reads: \<open>config.train.epochs\<close>, the two intervals of \<open>config.train\<close>, and
  three attributes that \<open>prepare_learning\<close> of a subclass sets: \<open>train_dataloader\<close>,
  \<open>n_updates_per_batch\<close> and \<open>total_steps\<close>. The dataloader is given by the batches one
  pass over it yields, the same in every epoch. The statistics an \<open>evaluate\<close> call returns
  depend on everything done before it: \<open>evaluate_stats\<close> maps the calls made so far to them.
\<close>

record ('b, 's) trainer =
  epochs :: int
  train_dataloader :: "'b list"
  n_updates_per_batch :: int
  checkpoint_interval :: int
  eval_interval :: int
  total_steps :: int
  evaluate_stats :: "'b event list \<Rightarrow> 's"

text \<open>The body of a loop either falls through to the next iteration or executes \<open>return\<close>.\<close>

datatype ('b, 's) outcome = Continue "'b learner" | Return "'b learner" 's

definition emit :: "'b event list \<Rightarrow> 'b learner \<Rightarrow> 'b learner" where
  "emit es st = st\<lparr>trace := trace st @ es\<rparr>"

definition and_then ::
  "error + ('b, 's) outcome \<Rightarrow> ('b learner \<Rightarrow> error + ('b, 's) outcome) \<Rightarrow> error + ('b, 's) outcome"
where
  "and_then r f =
     (case r of
        Inl e \<Rightarrow> Inl e
      | Inr (Return st s) \<Rightarrow> Inr (Return st s)
      | Inr (Continue st) \<Rightarrow> f st)"

text \<open>
  Lines 218--252, one update. Python's \<open>%\<close> raises \<open>ZeroDivisionError\<close> on a zero divisor
  and otherwise agrees with \<open>mod\<close> on \<open>int\<close> (the result has the divisor's sign).
\<close>

definition update_step ::
  "('b, 's) trainer \<Rightarrow> 'b \<Rightarrow> 'b learner \<Rightarrow> error + ('b, 's) outcome"
where
  "update_step cfg batch st =
     (let st1 = emit [Loss batch, Backward, OptStep, ZeroGrad, SchedulerStep] st;
          st2 = st1\<lparr>iter_count := iter_count st1 + 1\<rparr>
      in if checkpoint_interval cfg = 0 then Inl ZeroDivisionError
         else
           let st3 = (if iter_count st2 mod checkpoint_interval cfg = 0
                      then emit [Save (iter_count st2)] st2 else st2)
           in if eval_interval cfg = 0 then Inl ZeroDivisionError
              else
                let st4 = (if iter_count st3 mod eval_interval cfg = 0
                           then emit [Evaluate (iter_count st3), Log (iter_count st3)] st3
                           else st3);
                    st5 = emit [TbarUpdate] st4
                in if total_steps cfg \<le> iter_count st5
                   then
                     let st6 = emit [Save (iter_count st5)] st5
                     in Inr (Return (emit [Evaluate (iter_count st6)] st6)
                                    (evaluate_stats cfg (trace st6)))
                   else Inr (Continue st5))"

text \<open>Line 217: \<open>for _ in range(self.n_updates_per_batch)\<close>, by the repetitions left.\<close>

fun updates_loop ::
  "('b, 's) trainer \<Rightarrow> 'b \<Rightarrow> nat \<Rightarrow> 'b learner \<Rightarrow> error + ('b, 's) outcome"
where
  "updates_loop cfg batch 0 st = Inr (Continue st)"
| "updates_loop cfg batch (Suc n) st =
     and_then (update_step cfg batch st) (updates_loop cfg batch n)"

text \<open>
  Lines 216--254: \<open>for batch in self.train_dataloader\<close>; a batch whose updates all fall
  through is followed by \<open>post_backward_callback\<close>. \<open>range\<close> of a negative number is empty.
\<close>

fun batches_loop ::
  "('b, 's) trainer \<Rightarrow> 'b list \<Rightarrow> 'b learner \<Rightarrow> error + ('b, 's) outcome"
where
  "batches_loop cfg [] st = Inr (Continue st)"
| "batches_loop cfg (batch # batches) st =
     and_then (updates_loop cfg batch (nat (n_updates_per_batch cfg)) st)
       (\<lambda>st'. batches_loop cfg batches (emit [PostBackwardCallback] st'))"

text \<open>Lines 215--256: \<open>for _ in range(self.config.train.epochs)\<close>, by the epochs left.\<close>

fun epochs_loop ::
  "('b, 's) trainer \<Rightarrow> nat \<Rightarrow> 'b learner \<Rightarrow> error + ('b, 's) outcome"
where
  "epochs_loop cfg 0 st = Inr (Continue st)"
| "epochs_loop cfg (Suc n) st =
     and_then (batches_loop cfg (train_dataloader cfg) st)
       (\<lambda>st'. epochs_loop cfg n (emit [PostEpochCallback] st'))"

text \<open>
  \<open>learn\<close>: the final state and the returned value, \<open>None\<close> when the loops run out
  (a Python function that ends without \<open>return\<close>).
\<close>

definition learn :: "('b, 's) trainer \<Rightarrow> error + ('b learner \<times> 's option)" where
  "learn cfg =
     (case epochs_loop cfg (nat (epochs cfg)) \<lparr>iter_count = 0, trace = [PrepareLearning]\<rparr> of
        Inl e \<Rightarrow> Inl e
      | Inr (Return st s) \<Rightarrow> Inr (st, Some s)
      | Inr (Continue st) \<Rightarrow> Inr (st, None))"

subsection \<open>Reading a trace\<close>

fun is_loss :: "'b event \<Rightarrow> bool" where
  "is_loss (Loss b) = True"
| "is_loss e = False"

fun is_hook :: "'b event \<Rightarrow> bool" where
  "is_hook (Loss b) = True"
| "is_hook PostBackwardCallback = True"
| "is_hook PostEpochCallback = True"
| "is_hook e = False"

text \<open>The \<open>loss\<close> calls and the two callbacks of a trace, in order.\<close>

definition hooks :: "'b event list \<Rightarrow> 'b event list" where
  "hooks tr = filter is_hook tr"

text \<open>The number of updates in a trace: every update starts with its \<open>loss\<close> call.\<close>

definition updates_of :: "'b event list \<Rightarrow> nat" where
  "updates_of tr = length (filter is_loss tr)"

fun save_step :: "'b event \<Rightarrow> int list" where
  "save_step (Save k) = [k]"
| "save_step e = []"

fun eval_step :: "'b event \<Rightarrow> int list" where
  "eval_step (Evaluate k) = [k]"
| "eval_step e = []"

text \<open>The values of \<open>iter_count\<close> at the \<open>save\<close> calls and at the \<open>evaluate\<close> calls, in order.\<close>

definition save_steps :: "'b event list \<Rightarrow> int list" where
  "save_steps tr = concat (map save_step tr)"

definition eval_steps :: "'b event list \<Rightarrow> int list" where
  "eval_steps tr = concat (map eval_step tr)"

text \<open>
  The order of \<open>loss\<close> calls and callbacks that section 4.6 of the specification gives for a
  run that is never cut short: in every epoch, for every batch, \<open>n_updates_per_batch\<close> updates
  and then \<open>post_backward_callback\<close>; after the batches of the epoch, \<open>post_epoch_callback\<close>.
\<close>

definition batch_block :: "('b, 's) trainer \<Rightarrow> 'b \<Rightarrow> 'b event list" where
  "batch_block cfg b = replicate (nat (n_updates_per_batch cfg)) (Loss b) @ [PostBackwardCallback]"

definition epoch_block :: "('b, 's) trainer \<Rightarrow> 'b event list" where
  "epoch_block cfg = concat (map (batch_block cfg) (train_dataloader cfg)) @ [PostEpochCallback]"

definition schedule :: "('b, 's) trainer \<Rightarrow> 'b event list" where
  "schedule cfg = concat (replicate (nat (epochs cfg)) (epoch_block cfg))"

text \<open>
  The three loops run a list of steps in order and stop at the first \<open>return\<close>; \<open>run\<close> does
  the same on a flat list, which is how the loops are compared with \<open>schedule\<close>.
\<close>

fun act :: "('b, 's) trainer \<Rightarrow> 'b event \<Rightarrow> 'b learner \<Rightarrow> error + ('b, 's) outcome" where
  "act cfg (Loss b) st = update_step cfg b st"
| "act cfg e st = Inr (Continue (emit [e] st))"

fun run :: "('b, 's) trainer \<Rightarrow> 'b event list \<Rightarrow> 'b learner \<Rightarrow> error + ('b, 's) outcome" where
  "run cfg [] st = Inr (Continue st)"
| "run cfg (a # as) st = and_then (act cfg a st) (run cfg as)"

text \<open>What a run of \<open>learn\<close> leaves behind, read off its result.\<close>

definition final_count :: "('b, 's) trainer \<Rightarrow> int option" where
  "final_count cfg = (case learn cfg of Inl e \<Rightarrow> None | Inr (st, r) \<Rightarrow> Some (iter_count st))"

definition final_trace :: "('b, 's) trainer \<Rightarrow> 'b event list" where
  "final_trace cfg = (case learn cfg of Inl e \<Rightarrow> [] | Inr (st, r) \<Rightarrow> trace st)"

definition returned :: "('b, 's) trainer \<Rightarrow> 's option" where
  "returned cfg = (case learn cfg of Inl e \<Rightarrow> None | Inr (st, r) \<Rightarrow> r)"

text \<open>The scenario of section 8: ten steps, a checkpoint every five, an evaluation every ten.\<close>

definition scenario :: "(nat, nat) trainer" where
  "scenario =
     \<lparr>epochs = 1, train_dataloader = [0, 1, 2, 3, 4, 5, 6, 7, 8, 9], n_updates_per_batch = 1,
      checkpoint_interval = 5, eval_interval = 10, total_steps = 10,
      evaluate_stats = length\<rparr>"

text \<open>One epoch of one batch with one update, and a step budget of zero.\<close>

definition zero_budget :: "(nat, nat) trainer" where
  "zero_budget =
     \<lparr>epochs = 1, train_dataloader = [0], n_updates_per_batch = 1,
      checkpoint_interval = 1, eval_interval = 1, total_steps = 0,
      evaluate_stats = length\<rparr>"

text \<open>Two epochs of two batches with two updates each: eight updates, under two budgets.\<close>

definition unhurried :: "(nat, nat) trainer" where
  "unhurried =
     \<lparr>epochs = 2, train_dataloader = [0, 1], n_updates_per_batch = 2,
      checkpoint_interval = 3, eval_interval = 4, total_steps = 100,
      evaluate_stats = length\<rparr>"

definition interrupted :: "(nat, nat) trainer" where
  "interrupted = unhurried\<lparr>total_steps := 3\<rparr>"

section \<open>The layer-freeze policy of \<open>AccelerateRLModel.__init__\<close>\<close>

text \<open>
  Source: lines 54--64. Python's \<open>xs[:stop]\<close>: a negative \<open>stop\<close> counts from the end and
  is clipped at the start of the list, a positive one is clipped at its end.
\<close>

definition slice_to :: "'a list \<Rightarrow> int \<Rightarrow> 'a list" where
  "slice_to xs stop =
     (let n = int (length xs);
          bound = (if stop < 0 then max 0 (n + stop) else min stop n)
      in take (nat bound) xs)"

definition gpt_blocks_to_freeze :: "'a list \<Rightarrow> int \<Rightarrow> 'a list" where
  "gpt_blocks_to_freeze gpt_blocks num_layers_unfrozen =
     (if num_layers_unfrozen = 0 then gpt_blocks
      else if num_layers_unfrozen > 0 then slice_to gpt_blocks (- num_layers_unfrozen)
      else [])"

text \<open>
  Lines 63--64. The blocks are module objects: the list holds references, and
  \<open>requires_grad_(False)\<close> updates the module referred to. A store maps every module to
  whether its parameters still require gradients.
\<close>

fun requires_grad_False :: "'a list \<Rightarrow> ('a \<Rightarrow> bool) \<Rightarrow> ('a \<Rightarrow> bool)" where
  "requires_grad_False [] requires_grad = requires_grad"
| "requires_grad_False (m # ms) requires_grad = requires_grad_False ms (requires_grad(m := False))"

definition freeze_layers :: "'a list \<Rightarrow> int \<Rightarrow> ('a \<Rightarrow> bool) \<Rightarrow> ('a \<Rightarrow> bool)" where
  "freeze_layers gpt_blocks num_layers_unfrozen requires_grad =
     requires_grad_False (gpt_blocks_to_freeze gpt_blocks num_layers_unfrozen) requires_grad"

section \<open>\<open>generate\<close>\<close>

text \<open>
  Source: lines 105--116. Keyword arguments are a dictionary from names to values;
  \<open>dict(self.generate_kwargs, **kwargs)\<close> copies the defaults and then stores every entry of
  \<open>kwargs\<close>. The decoding call passes \<open>input_ids\<close> and \<open>attention_mask\<close> by name next to
  \<open>**kwargs\<close>; Python raises \<open>TypeError\<close> when a name is given twice. \<open>torch.no_grad()\<close>
  switches gradient tracking off for its body and restores the previous mode afterwards.
\<close>

record ('t, 'v) decoding_call =
  input_ids :: 't
  attention_mask :: "'t option"
  decoding_kwargs :: "string \<rightharpoonup> 'v"
  grad_enabled :: bool

record ('t, 'v, 'r) generator =
  generate_kwargs :: "string \<rightharpoonup> 'v"
  to_device :: "'t \<Rightarrow> 't"
  model_generate :: "('t, 'v) decoding_call \<Rightarrow> 'r"

definition generate ::
  "('t, 'v, 'r) generator \<Rightarrow> 't \<Rightarrow> 't option \<Rightarrow> (string \<rightharpoonup> 'v) \<Rightarrow> bool \<Rightarrow> error + ('r \<times> bool)"
where
  "generate self ids att_mask kwargs grad_mode =
     (let ids' = to_device self ids;
          mask' = (case att_mask of None \<Rightarrow> None | Some m \<Rightarrow> Some (to_device self m));
          kwargs' = generate_kwargs self ++ kwargs
      in if kwargs' ''input_ids'' \<noteq> None \<or> kwargs' ''attention_mask'' \<noteq> None
         then Inl TypeError
         else Inr (model_generate self
                     \<lparr>input_ids = ids', attention_mask = mask', decoding_kwargs = kwargs',
                      grad_enabled = False\<rparr>,
                   grad_mode))"

section \<open>\<open>evaluate\<close>\<close>

text \<open>
  Source: lines 134--201. A two-dimensional tensor of token ids is its rows together with
  \<open>shape[1]\<close>; in a tensor every row has that many entries.
\<close>

record tensor =
  width :: nat
  rows :: "int list list"

definition rectangular :: "tensor \<Rightarrow> bool" where
  "rectangular t = list_all (\<lambda>r. length r = width t) (rows t)"

text \<open>
  \<open>F.pad(t, (0, amount), value=v)\<close> of \<open>torch.nn.functional\<close>, in its default constant mode:
  \<open>amount\<close> columns of \<open>v\<close> are added on the right of the last dimension; a negative amount
  removes that many columns from the right; a width below zero is refused. (Some releases of
  the library refuse a width of zero as well; nothing below depends on that case.)
\<close>

definition F_pad :: "tensor \<Rightarrow> int \<Rightarrow> int \<Rightarrow> error + tensor" where
  "F_pad t amount v =
     (let new_width = int (width t) + amount
      in if new_width < 0 then Inl (RuntimeError NegativeOutputSize)
         else Inr \<lparr>width = nat new_width,
                   rows = map (\<lambda>r. if 0 \<le> amount then r @ replicate (nat amount) v
                                    else take (nat new_width) r)
                              (rows t)\<rparr>)"

text \<open>\<open>torch.vstack\<close>: the list must not be empty and the widths must agree.\<close>

definition vstack :: "tensor list \<Rightarrow> error + tensor" where
  "vstack ts =
     (case ts of
        [] \<Rightarrow> Inl (RuntimeError EmptyTensorList)
      | t # rest \<Rightarrow>
          if list_all (\<lambda>u. width u = width t) rest
          then Inr \<lparr>width = width t, rows = concat (map rows ts)\<rparr>
          else Inl (RuntimeError SizesMustMatch))"

text \<open>What \<open>self.generate\<close> hands back: the sample tensor, or a tuple that starts with it.\<close>

datatype generated = Samples tensor | SamplesAndMore tensor

record pretrained_tokenizer =
  eos_token_id :: int
  decode :: "int list \<Rightarrow> string"

text \<open>After line 162 the samples are decoded strings, or still the gathered tensor.\<close>

datatype samples = Decoded "string list" | Undecoded tensor

text \<open>
  The values a float32 tensor can hold. \<open>torch.as_tensor\<close> stores every number it is given as
  a float32, and \<open>Tensor.mean\<close> averages in float32 arithmetic, in an order of additions that
  the library chooses. Neither is code of this repository: the evaluator below takes the cast
  of one number (\<open>to_float32\<close>) and the mean of a float32 tensor (\<open>tensor_mean\<close>) as given.
\<close>

datatype float32 = Finite real | PosInf | NegInf | NaN

datatype cell = Text string | Ids "int list" | Number real | Float float32

datatype stat = Seconds real | Mean float32 | Table "string list" "cell list list"

datatype call = RewardFn samples | MetricFn samples

text \<open>
  What \<open>evaluate\<close> reads from \<open>self\<close> and from its surroundings: the prompt batches of
  \<open>eval_dataloader\<close>, what \<open>generate\<close> returns for each of them, \<open>max_length\<close>, the tokenizer
  (if any), the accelerator's \<open>gather\<close> and \<open>is_main_process\<close>, the two optional functions,
  the successive readings of \<open>time()\<close>, and the two operations of \<open>torch\<close> on float32 tensors.
\<close>

record 'p evaluator =
  eval_dataloader :: "'p list"
  generate_samples :: "'p \<Rightarrow> generated"
  max_length :: int
  tokenizer :: "pretrained_tokenizer option"
  gather :: "tensor \<Rightarrow> tensor"
  is_main_process :: bool
  reward_fn :: "(samples \<Rightarrow> real list) option"
  metric_fn :: "(samples \<Rightarrow> (string \<times> real list) list) option"
  clock :: "nat \<Rightarrow> real"
  to_float32 :: "real \<Rightarrow> float32"
  tensor_mean :: "float32 list \<Rightarrow> float32"

text \<open>Lines 145--146.\<close>

fun unwrap :: "generated \<Rightarrow> tensor" where
  "unwrap (Samples t) = t"
| "unwrap (SamplesAndMore t) = t"

text \<open>Line 148.\<close>

definition pad_token :: "'p evaluator \<Rightarrow> int" where
  "pad_token self = (case tokenizer self of Some tk \<Rightarrow> eos_token_id tk | None \<Rightarrow> 0)"

text \<open>Lines 139--155: the loop over \<open>eval_dataloader\<close>, with \<open>all_samples\<close> as accumulator.\<close>

fun pad_all :: "'p evaluator \<Rightarrow> 'p list \<Rightarrow> tensor list \<Rightarrow> error + tensor list" where
  "pad_all self [] all_samples = Inr all_samples"
| "pad_all self (prompts # rest) all_samples =
     (let samples = unwrap (generate_samples self prompts)
      in case F_pad samples (max_length self - int (width samples)) (pad_token self) of
           Inl e \<Rightarrow> Inl e
         | Inr padded \<Rightarrow> pad_all self rest (all_samples @ [padded]))"

text \<open>The value of \<open>samples\<close> after line 158: stacked, then gathered over the processes.\<close>

definition gathered_samples :: "'p evaluator \<Rightarrow> error + tensor" where
  "gathered_samples self =
     (case pad_all self (eval_dataloader self) [] of
        Inl e \<Rightarrow> Inl e
      | Inr all_samples \<Rightarrow>
          (case vstack all_samples of
             Inl e \<Rightarrow> Inl e
           | Inr stacked \<Rightarrow> Inr (gather self stacked)))"

text \<open>Lines 161--162.\<close>

definition decoded :: "'p evaluator \<Rightarrow> tensor \<Rightarrow> samples" where
  "decoded self t =
     (case tokenizer self of
        Some tk \<Rightarrow> Decoded (map (decode tk) (rows t))
      | None \<Rightarrow> Undecoded t)"

text \<open>Lines 164--167: the first column of the table; \<open>samples[0]\<close> needs a first sample.\<close>

fun sample_column :: "samples \<Rightarrow> error + cell list" where
  "sample_column (Decoded texts) = (if texts = [] then Inl IndexError else Inr (map Text texts))"
| "sample_column (Undecoded t) = (if rows t = [] then Inl IndexError else Inr (map Ids (rows t)))"

text \<open>Line 196: \<open>zip(*columns_data)\<close> stops with the shortest column.\<close>

definition zip_rows :: "'a list list \<Rightarrow> 'a list list" where
  "zip_rows columns_data =
     (case columns_data of
        [] \<Rightarrow> []
      | c # cs \<Rightarrow>
          map (\<lambda>i. map (\<lambda>column. column ! i) columns_data)
            [0..<fold min (map length cs) (length c)])"

text \<open>
  The state of the main-process branch: the column names, the columns, the statistics and
  the calls made to the two optional functions.
\<close>

record table_state =
  columns :: "string list"
  columns_data :: "cell list list"
  stats :: "string \<rightharpoonup> stat"
  calls :: "call list"

text \<open>
  Lines 171--177. Line 172 casts what \<open>reward_fn\<close> returns to a float32 tensor; line 173
  takes the mean of that tensor, and line 175 puts the tensor into the table.
\<close>

definition add_reward :: "'p evaluator \<Rightarrow> samples \<Rightarrow> table_state \<Rightarrow> table_state" where
  "add_reward self smp st =
     (case reward_fn self of
        None \<Rightarrow> st
      | Some f \<Rightarrow>
          let rewards = map (to_float32 self) (f smp);
              mean_reward = tensor_mean self rewards
          in st\<lparr>columns := columns st @ [''reward''],
                columns_data := columns_data st @ [map Float rewards],
                stats := (stats st)(''mean_reward'' \<mapsto> Mean mean_reward),
                calls := calls st @ [RewardFn smp]\<rparr>)"

text \<open>
  Lines 185--190: the dictionary of means, built entry by entry, then \<open>stats.update\<close>. Each
  mean is \<open>torch.as_tensor(xs).mean(-1)\<close>: a cast to float32 and the mean of the tensor.
\<close>

fun mean_metrics ::
  "'p evaluator \<Rightarrow> (string \<times> real list) list \<Rightarrow> (string \<rightharpoonup> stat) \<Rightarrow> (string \<rightharpoonup> stat)"
where
  "mean_metrics self [] d = d"
| "mean_metrics self ((k, xs) # metrics) d =
     mean_metrics self metrics
       (d(''metrics/'' @ k \<mapsto> Mean (tensor_mean self (map (to_float32 self) xs))))"

text \<open>Lines 180--194.\<close>

definition add_metrics :: "'p evaluator \<Rightarrow> samples \<Rightarrow> table_state \<Rightarrow> table_state" where
  "add_metrics self smp st =
     (case metric_fn self of
        None \<Rightarrow> st
      | Some f \<Rightarrow>
          let metrics = f smp;
              stats1 = (stats st)(''metric_time'' \<mapsto> Seconds (clock self 3 - clock self 2));
              stats2 = stats1 ++ mean_metrics self metrics Map.empty
          in st\<lparr>columns := columns st @ map fst metrics,
                columns_data := columns_data st @ map (\<lambda>(metric, values). map Number values) metrics,
                stats := stats2,
                calls := calls st @ [MetricFn smp]\<rparr>)"

text \<open>
  \<open>evaluate\<close>: the returned statistics, and the calls made to \<open>reward_fn\<close> and \<open>metric_fn\<close>.
  \<open>print(rows[0])\<close> on line 199 needs a first row.
\<close>

definition evaluate :: "'p evaluator \<Rightarrow> error + ((string \<rightharpoonup> stat) \<times> call list)" where
  "evaluate self =
     (case pad_all self (eval_dataloader self) [] of
        Inl e \<Rightarrow> Inl e
      | Inr all_samples \<Rightarrow>
          let stats0 = [''generate_time'' \<mapsto> Seconds (clock self 1 - clock self 0)]
          in case vstack all_samples of
               Inl e \<Rightarrow> Inl e
             | Inr stacked \<Rightarrow>
                 let gathered = gather self stacked
                 in if is_main_process self
                    then
                      let smp = decoded self gathered
                      in case sample_column smp of
                           Inl e \<Rightarrow> Inl e
                         | Inr column \<Rightarrow>
                             let st0 = \<lparr>columns = [''samples''], columns_data = [column],
                                        stats = stats0, calls = []\<rparr>;
                                 st1 = add_reward self smp st0;
                                 st2 = add_metrics self smp st1;
                                 table_rows = zip_rows (columns_data st2);
                                 stats3 = (stats st2)(''samples'' \<mapsto> Table (columns st2) table_rows)
                             in if table_rows = [] then Inl IndexError
                                else Inr (stats3, calls st2)
                    else Inr (stats0, []))"

text \<open>What a call of \<open>evaluate\<close> gives, read off its result.\<close>

definition evaluate_returns :: "'p evaluator \<Rightarrow> bool" where
  "evaluate_returns self = (case evaluate self of Inl e \<Rightarrow> False | Inr res \<Rightarrow> True)"

definition stat_of :: "'p evaluator \<Rightarrow> string \<Rightarrow> stat option" where
  "stat_of self key = (case evaluate self of Inl e \<Rightarrow> None | Inr (st, cs) \<Rightarrow> st key)"

definition calls_of :: "'p evaluator \<Rightarrow> call list" where
  "calls_of self = (case evaluate self of Inl e \<Rightarrow> [] | Inr (st, cs) \<Rightarrow> cs)"

fun reward_call :: "call \<Rightarrow> samples list" where
  "reward_call (RewardFn smp) = [smp]"
| "reward_call (MetricFn smp) = []"

text \<open>The arguments of the calls to \<open>reward_fn\<close>, in order.\<close>

definition reward_calls :: "call list \<Rightarrow> samples list" where
  "reward_calls cs = concat (map reward_call cs)"

text \<open>The arithmetic mean of the specification: the sum divided by the number of values.\<close>

definition arithmetic_mean :: "real list \<Rightarrow> real" where
  "arithmetic_mean xs = sum_list xs / real (length xs)"

text \<open>
  The rewards and metric values of the scenarios below are small whole numbers: float32 holds
  them, their sums and their means exactly, so there the cast keeps the number and the mean is
  the sum divided by the length.
\<close>

fun float32_value :: "float32 \<Rightarrow> real" where
  "float32_value (Finite x) = x"
| "float32_value v = 0"

definition exact_mean :: "float32 list \<Rightarrow> float32" where
  "exact_mean xs =
     (if xs = [] then NaN else Finite (sum_list (map float32_value xs) / real (length xs)))"

text \<open>
  The scenarios of section 8: three prompts, \<open>max_length = 20\<close>, no tokenizer, on a process
  that is not the main one; and on the main process a reward function that returns
  \<open>[1.0, 2.0, 3.0]\<close> for the three samples.
\<close>

definition three_prompts :: "nat evaluator" where
  "three_prompts =
     \<lparr>eval_dataloader = [0, 1, 2],
      generate_samples = (\<lambda>p. Samples \<lparr>width = 2, rows = [[int p, 7]]\<rparr>),
      max_length = 20,
      tokenizer = None,
      gather = (\<lambda>t. t),
      is_main_process = False,
      reward_fn = Some (\<lambda>s. [1, 2, 3]),
      metric_fn = None,
      clock = real,
      to_float32 = Finite,
      tensor_mean = exact_mean\<rparr>"

definition scored :: "nat evaluator" where
  "scored = three_prompts\<lparr>is_main_process := True\<rparr>"

text \<open>With a tokenizer and a metric function, and with samples longer than \<open>max_length\<close>.\<close>

definition measured :: "nat evaluator" where
  "measured =
     scored\<lparr>tokenizer := Some \<lparr>eos_token_id = 50256, decode = map (\<lambda>i. if i = 7 then CHR ''a'' else CHR ''b'')\<rparr>,
            metric_fn := Some (\<lambda>s. [(''length'', [2, 2, 2]), (''rank'', [0, 1, 5])])\<rparr>"

definition overlong :: "nat evaluator" where
  "overlong =
     three_prompts\<lparr>generate_samples := (\<lambda>p. Samples \<lparr>width = 3 + p, rows = [replicate (3 + p) (int p)]\<rparr>),
                   max_length := 4\<rparr>"

text \<open>Six blocks, given by their positions, all requiring gradients at first.\<close>

definition six_blocks :: "nat list" where
  "six_blocks = [0, 1, 2, 3, 4, 5]"

text \<open>Defaults for decoding, and a decoder that hands back the call it receives.\<close>

definition echo :: "(nat, int, (nat, int) decoding_call) generator" where
  "echo =
     \<lparr>generate_kwargs = [''max_length'' \<mapsto> 48, ''top_k'' \<mapsto> 0],
      to_device = (\<lambda>t. t),
      model_generate = (\<lambda>c. c)\<rparr>"

section \<open>Properties of the training loop\<close>

subsection \<open>The loops as one run\<close>

lemma and_then_simps [simp]:
  "and_then (Inl e) f = Inl e"
  "and_then (Inr (Return st s)) f = Inr (Return st s)"
  "and_then (Inr (Continue st)) f = f st"
  by (simp_all add: and_then_def)

lemma and_then_assoc:
  "and_then (and_then r f) g = and_then r (\<lambda>st. and_then (f st) g)"
  by (cases r rule: sum.exhaust; simp add: and_then_def split: outcome.splits)

lemma and_then_cong: "r = r' \<Longrightarrow> (\<And>st. f st = g st) \<Longrightarrow> and_then r f = and_then r' g"
proof -
  assume "r = r'" and "\<And>st. f st = g st"
  moreover from this have "f = g" by (intro ext)
  ultimately show ?thesis by simp
qed

lemma run_append: "run cfg (xs @ ys) st = and_then (run cfg xs st) (run cfg ys)"
proof (induction xs arbitrary: st)
  case Nil
  show ?case by simp
next
  case (Cons a xs)
  show ?case by (simp add: and_then_assoc Cons.IH cong: and_then_cong)
qed

lemma updates_loop_run: "updates_loop cfg b n st = run cfg (replicate n (Loss b)) st"
proof (induction n arbitrary: st)
  case 0
  show ?case by simp
next
  case (Suc n)
  show ?case by (simp add: Suc.IH cong: and_then_cong)
qed

lemma batches_loop_run:
  "batches_loop cfg bs st = run cfg (concat (map (batch_block cfg) bs)) st"
proof (induction bs arbitrary: st)
  case Nil
  show ?case by simp
next
  case (Cons b bs)
  show ?case
    by (simp add: batch_block_def run_append updates_loop_run and_then_assoc
        Cons.IH [unfolded batch_block_def] cong: and_then_cong)
qed

lemma epochs_loop_run:
  "epochs_loop cfg n st = run cfg (concat (replicate n (epoch_block cfg))) st"
proof (induction n arbitrary: st)
  case 0
  show ?case by simp
next
  case (Suc n)
  show ?case
    by (simp add: epoch_block_def run_append batches_loop_run and_then_assoc
        Suc.IH [unfolded epoch_block_def] cong: and_then_cong)
qed

lemma learn_run:
  "learn cfg =
     (case run cfg (schedule cfg) \<lparr>iter_count = 0, trace = [PrepareLearning]\<rparr> of
        Inl e \<Rightarrow> Inl e
      | Inr (Return st s) \<Rightarrow> Inr (st, Some s)
      | Inr (Continue st) \<Rightarrow> Inr (st, None))"
  by (simp add: learn_def schedule_def epochs_loop_run)

subsection \<open>One update\<close>

lemma and_then_Continue:
  "and_then r f = Inr (Continue st') \<longleftrightarrow> (\<exists>st1. r = Inr (Continue st1) \<and> f st1 = Inr (Continue st'))"
  by (auto simp: and_then_def split: sum.splits outcome.splits)

lemma and_then_Return:
  "and_then r f = Inr (Return st' s) \<longleftrightarrow>
     r = Inr (Return st' s) \<or> (\<exists>st1. r = Inr (Continue st1) \<and> f st1 = Inr (Return st' s))"
  by (auto simp: and_then_def split: sum.splits outcome.splits)

lemma hooks_append [simp]: "hooks (xs @ ys) = hooks xs @ hooks ys"
  by (simp add: hooks_def)

lemma save_steps_append [simp]: "save_steps (xs @ ys) = save_steps xs @ save_steps ys"
  by (simp add: save_steps_def)

lemma eval_steps_append [simp]: "eval_steps (xs @ ys) = eval_steps xs @ eval_steps ys"
  by (simp add: eval_steps_def)

lemma update_step_total:
  assumes "checkpoint_interval cfg \<noteq> 0" and "eval_interval cfg \<noteq> 0"
  shows "\<exists>r. update_step cfg b st = Inr r"
  using assms by (simp add: update_step_def Let_def)

lemma update_step_Continue:
  assumes "update_step cfg b st = Inr (Continue st')"
  shows "iter_count st' = iter_count st + 1"
    and "iter_count st' < total_steps cfg"
    and "hooks (trace st') = hooks (trace st) @ [Loss b]"
    and "save_steps (trace st') =
           save_steps (trace st) @ [k \<leftarrow> [iter_count st + 1]. k mod checkpoint_interval cfg = 0]"
    and "eval_steps (trace st') =
           eval_steps (trace st) @ [k \<leftarrow> [iter_count st + 1]. k mod eval_interval cfg = 0]"
  using assms
  by (auto simp: update_step_def Let_def emit_def hooks_def save_steps_def eval_steps_def
      split: if_splits)

lemma update_step_Return:
  assumes "update_step cfg b st = Inr (Return st' s)"
  shows "iter_count st' = iter_count st + 1"
    and "total_steps cfg \<le> iter_count st'"
    and "hooks (trace st') = hooks (trace st) @ [Loss b]"
    and "save_steps (trace st') =
           save_steps (trace st) @ [k \<leftarrow> [iter_count st + 1]. k mod checkpoint_interval cfg = 0]
             @ [iter_count st + 1]"
    and "eval_steps (trace st') =
           eval_steps (trace st) @ [k \<leftarrow> [iter_count st + 1]. k mod eval_interval cfg = 0]
             @ [iter_count st + 1]"
    and "\<exists>pre. trace st' = pre @ [TbarUpdate, Save (iter_count st'), Evaluate (iter_count st')]
           \<and> s = evaluate_stats cfg (pre @ [TbarUpdate, Save (iter_count st')])"
  using assms
  by (auto simp: update_step_def Let_def emit_def hooks_def save_steps_def eval_steps_def
      split: if_splits)

subsection \<open>Runs\<close>

lemma updates_of_append [simp]: "updates_of (xs @ ys) = updates_of xs + updates_of ys"
  by (simp add: updates_of_def)

lemma updates_of_hooks [simp]: "updates_of (hooks tr) = updates_of tr"
proof -
  have "filter is_loss (filter is_hook tr) = filter is_loss tr"
    by (induction tr) (auto elim: is_loss.elims)
  then show ?thesis by (simp add: updates_of_def hooks_def)
qed

lemma act_hook_Continue:
  assumes "act cfg a st = Inr (Continue st1)" and "is_hook a"
  shows "iter_count st1 = iter_count st + int (updates_of [a])"
    and "updates_of [a] = 0 \<or> iter_count st1 < total_steps cfg"
    and "hooks (trace st1) = hooks (trace st) @ [a]"
    and "save_steps (trace st1) =
           save_steps (trace st) @ [k \<leftarrow> [iter_count st + 1..iter_count st1]. k mod checkpoint_interval cfg = 0]"
    and "eval_steps (trace st1) =
           eval_steps (trace st) @ [k \<leftarrow> [iter_count st + 1..iter_count st1]. k mod eval_interval cfg = 0]"
proof -
  have split:
    "(\<exists>b. a = Loss b \<and> update_step cfg b st = Inr (Continue st1)) \<or>
     (updates_of [a] = 0 \<and> st1 = emit [a] st \<and> hooks [a] = [a] \<and> save_steps [a] = []
        \<and> eval_steps [a] = [])"
    using assms
    by (cases a) (auto simp: updates_of_def hooks_def save_steps_def eval_steps_def)
  show "iter_count st1 = iter_count st + int (updates_of [a])"
    using split by (auto simp: updates_of_def emit_def dest: update_step_Continue(1))
  show "updates_of [a] = 0 \<or> iter_count st1 < total_steps cfg"
    using split by (auto dest: update_step_Continue(2))
  show "hooks (trace st1) = hooks (trace st) @ [a]"
    using split by (auto simp: emit_def dest: update_step_Continue(3))
  show "save_steps (trace st1) =
           save_steps (trace st) @ [k \<leftarrow> [iter_count st + 1..iter_count st1]. k mod checkpoint_interval cfg = 0]"
    using split update_step_Continue(1,4) [of cfg _ st st1]
    by (auto simp: emit_def)
  show "eval_steps (trace st1) =
           eval_steps (trace st) @ [k \<leftarrow> [iter_count st + 1..iter_count st1]. k mod eval_interval cfg = 0]"
    using split update_step_Continue(1,5) [of cfg _ st st1]
    by (auto simp: emit_def)
qed

lemma upto_glue: "i \<le> j \<Longrightarrow> j \<le> k \<Longrightarrow> [i + 1..j] @ [j + 1..k] = [i + 1..k]" for i j k :: int
proof (cases "i = j")
  case True
  then show ?thesis by simp
next
  case False
  assume "i \<le> j" and "j \<le> k"
  with False have "i + 1 \<le> j" by simp
  from upto_split2 [OF this \<open>j \<le> k\<close>] show ?thesis by simp
qed

lemma filter_upto_glue:
  "i \<le> j \<Longrightarrow> j \<le> k \<Longrightarrow> filter P [i + 1..j] @ filter P [j + 1..k] = filter P [i + 1..k]"
  for i j k :: int
  by (simp add: upto_glue flip: filter_append)

lemma updates_of_Cons: "updates_of (a # as) = updates_of [a] + updates_of as"
  by (simp add: updates_of_def)

lemma run_Continue:
  assumes "run cfg acts st = Inr (Continue st')" and "\<forall>a\<in>set acts. is_hook a"
  shows "iter_count st' = iter_count st + int (updates_of acts)
       \<and> (updates_of acts = 0 \<or> iter_count st' < total_steps cfg)
       \<and> hooks (trace st') = hooks (trace st) @ acts
       \<and> save_steps (trace st') = save_steps (trace st)
            @ [k \<leftarrow> [iter_count st + 1..iter_count st']. k mod checkpoint_interval cfg = 0]
       \<and> eval_steps (trace st') = eval_steps (trace st)
            @ [k \<leftarrow> [iter_count st + 1..iter_count st']. k mod eval_interval cfg = 0]"
  using assms
proof (induction acts arbitrary: st)
  case Nil
  then show ?case by (simp add: updates_of_def)
next
  case (Cons a as)
  from Cons.prems(1) obtain st1 where
    a: "act cfg a st = Inr (Continue st1)" and r: "run cfg as st1 = Inr (Continue st')"
    by (auto simp: and_then_Continue)
  from Cons.prems(2) have ha: "is_hook a" and has: "\<forall>a\<in>set as. is_hook a" by simp_all
  note A = act_hook_Continue [OF a ha]
  note R = Cons.IH [OF r has]
  have le1: "iter_count st \<le> iter_count st1" using A(1) by simp
  have le2: "iter_count st1 \<le> iter_count st'" using R by simp
  have "iter_count st' = iter_count st + int (updates_of (a # as))"
    using A(1) R by (simp add: updates_of_Cons [of a as])
  moreover have "updates_of (a # as) = 0 \<or> iter_count st' < total_steps cfg"
    using A(1,2) R by (auto simp: updates_of_Cons [of a as])
  moreover have "hooks (trace st') = hooks (trace st) @ a # as"
    using A(3) R by simp
  moreover have "save_steps (trace st') = save_steps (trace st)
            @ [k \<leftarrow> [iter_count st + 1..iter_count st']. k mod checkpoint_interval cfg = 0]"
    using A(4) R filter_upto_glue [OF le1 le2] by simp
  moreover have "eval_steps (trace st') = eval_steps (trace st)
            @ [k \<leftarrow> [iter_count st + 1..iter_count st']. k mod eval_interval cfg = 0]"
    using A(5) R filter_upto_glue [OF le1 le2] by simp
  ultimately show ?case by blast
qed

lemma run_Return:
  assumes "run cfg acts st = Inr (Return st' s)" and "\<forall>a\<in>set acts. is_hook a"
  shows "\<exists>l1 b l2 st1. acts = l1 @ Loss b # l2 \<and> run cfg l1 st = Inr (Continue st1)
           \<and> update_step cfg b st1 = Inr (Return st' s)"
  using assms
proof (induction acts arbitrary: st)
  case Nil
  then show ?case by simp
next
  case (Cons a as)
  from Cons.prems(1) consider
    (now) "act cfg a st = Inr (Return st' s)"
  | (later) st1 where "act cfg a st = Inr (Continue st1)" and "run cfg as st1 = Inr (Return st' s)"
    by (auto simp: and_then_Return)
  then show ?case
  proof cases
    case now
    then obtain b where "a = Loss b" and "update_step cfg b st = Inr (Return st' s)"
      by (cases a) auto
    then have "a # as = [] @ Loss b # as \<and> run cfg [] st = Inr (Continue st)
           \<and> update_step cfg b st = Inr (Return st' s)"
      by simp
    then show ?thesis by blast
  next
    case later
    from Cons.prems(2) have "\<forall>a\<in>set as. is_hook a" by simp
    from Cons.IH [OF later(2) this] obtain l1 b l2 st2 where
      "as = l1 @ Loss b # l2" and "run cfg l1 st1 = Inr (Continue st2)"
      and "update_step cfg b st2 = Inr (Return st' s)"
      by blast
    with later(1) have "a # as = (a # l1) @ Loss b # l2 \<and> run cfg (a # l1) st = Inr (Continue st2)
           \<and> update_step cfg b st2 = Inr (Return st' s)"
      by simp
    then show ?thesis by blast
  qed
qed

lemma run_total:
  assumes "checkpoint_interval cfg \<noteq> 0" and "eval_interval cfg \<noteq> 0"
  shows "\<exists>r. run cfg acts st = Inr r"
proof (induction acts arbitrary: st)
  case Nil
  show ?case by simp
next
  case (Cons a as)
  have "\<exists>r. act cfg a st = Inr r"
    using update_step_total [OF assms] by (cases a) simp_all
  then obtain r where r: "act cfg a st = Inr r" ..
  show ?case
  proof (cases r)
    case (Continue st1)
    with r Cons.IH [of st1] show ?thesis by simp
  next
    case (Return st1 s)
    with r show ?thesis by simp
  qed
qed

subsection \<open>The schedule\<close>

lemma batch_block_hooks: "\<forall>a\<in>set (batch_block cfg b). is_hook a"
  by (simp add: batch_block_def)

lemma epoch_block_hooks: "\<forall>a\<in>set (epoch_block cfg). is_hook a"
  by (auto simp: epoch_block_def batch_block_def)

lemma schedule_hooks: "\<forall>a\<in>set (schedule cfg). is_hook a"
  using epoch_block_hooks [of cfg] by (auto simp: schedule_def)

lemma updates_of_Nil [simp]: "updates_of [] = 0"
  by (simp add: updates_of_def)

lemma updates_of_concat_replicate: "updates_of (concat (replicate n xs)) = n * updates_of xs"
  by (induction n) simp_all

lemma updates_of_batch_block: "updates_of (batch_block cfg b) = nat (n_updates_per_batch cfg)"
  by (simp add: batch_block_def updates_of_def)

lemma updates_of_batch_blocks:
  "updates_of (concat (map (batch_block cfg) bs)) = length bs * nat (n_updates_per_batch cfg)"
  by (induction bs) (simp_all add: updates_of_batch_block)

lemma updates_of_epoch_block:
  "updates_of (epoch_block cfg) = length (train_dataloader cfg) * nat (n_updates_per_batch cfg)"
  by (simp add: epoch_block_def updates_of_batch_blocks) (simp add: updates_of_def)

lemma updates_of_schedule:
  "updates_of (schedule cfg) =
     nat (epochs cfg) * length (train_dataloader cfg) * nat (n_updates_per_batch cfg)"
  by (simp add: schedule_def updates_of_concat_replicate updates_of_epoch_block)

text \<open>In the schedule, the two callbacks stand somewhere after every \<open>loss\<close> call.\<close>

lemma after_loss_append:
  assumes xs: "\<forall>l1 b l2. xs = l1 @ Loss b # l2 \<longrightarrow> c \<in> set l2"
    and ys: "\<forall>l1 b l2. ys = l1 @ Loss b # l2 \<longrightarrow> c \<in> set l2"
  shows "\<forall>l1 b l2. xs @ ys = l1 @ Loss b # l2 \<longrightarrow> c \<in> set l2"
proof (intro allI impI)
  fix l1 b l2
  assume "xs @ ys = l1 @ Loss b # l2"
  then consider
    (left) us where "xs = l1 @ us" and "us @ ys = Loss b # l2"
  | (right) us where "xs @ us = l1" and "ys = us @ Loss b # l2"
    by (auto simp: append_eq_append_conv2)
  then show "c \<in> set l2"
  proof cases
    case left
    show ?thesis
    proof (cases us)
      case Nil
      with left have "ys = [] @ Loss b # l2" by simp
      with ys show ?thesis by blast
    next
      case (Cons u us')
      with left have "xs = l1 @ Loss b # us'" and "l2 = us' @ ys" by simp_all
      with xs show ?thesis by auto
    qed
  next
    case right
    with ys show ?thesis by blast
  qed
qed

lemma after_loss_concat:
  assumes "\<forall>xs\<in>set xss. \<forall>l1 b l2. xs = l1 @ Loss b # l2 \<longrightarrow> c \<in> set l2"
  shows "\<forall>l1 b l2. concat xss = l1 @ Loss b # l2 \<longrightarrow> c \<in> set l2"
  using assms
proof (induction xss)
  case Nil
  show ?case by simp
next
  case (Cons xs xss)
  have "\<forall>l1 b l2. xs @ concat xss = l1 @ Loss b # l2 \<longrightarrow> c \<in> set l2"
  proof (rule after_loss_append)
    show "\<forall>l1 b l2. xs = l1 @ Loss b # l2 \<longrightarrow> c \<in> set l2"
      using Cons.prems by simp
    show "\<forall>l1 b l2. concat xss = l1 @ Loss b # l2 \<longrightarrow> c \<in> set l2"
      using Cons.prems by (intro Cons.IH) simp
  qed
  then show ?case by simp
qed

lemma after_loss_snoc:
  assumes "\<not> is_loss c"
  shows "\<forall>l1 b l2. ys @ [c] = l1 @ Loss b # l2 \<longrightarrow> c \<in> set l2"
proof (intro allI impI)
  fix l1 b l2
  assume eq: "ys @ [c] = l1 @ Loss b # l2"
  show "c \<in> set l2"
  proof (cases l2 rule: rev_cases)
    case Nil
    with assms eq show ?thesis by auto
  next
    case (snoc l2' x)
    with eq have "ys @ [c] = (l1 @ Loss b # l2') @ [x]" by simp
    then have "x = c" by (simp del: append_assoc)
    with snoc show ?thesis by simp
  qed
qed

lemma batch_block_after_loss:
  "\<forall>l1 b l2. batch_block cfg b' = l1 @ Loss b # l2 \<longrightarrow> PostBackwardCallback \<in> set l2"
  unfolding batch_block_def by (rule after_loss_snoc) simp

lemma epoch_block_after_loss:
  "\<forall>l1 b l2. epoch_block cfg = l1 @ Loss b # l2 \<longrightarrow> PostBackwardCallback \<in> set l2"
  "\<forall>l1 b l2. epoch_block cfg = l1 @ Loss b # l2 \<longrightarrow> PostEpochCallback \<in> set l2"
proof -
  have "\<forall>l1 b l2. concat (map (batch_block cfg) (train_dataloader cfg)) = l1 @ Loss b # l2
      \<longrightarrow> PostBackwardCallback \<in> set l2"
    by (rule after_loss_concat) (simp add: batch_block_after_loss)
  moreover have "\<forall>l1 b l2. [PostEpochCallback] = l1 @ Loss b # l2
      \<longrightarrow> PostBackwardCallback \<in> set l2"
    by (simp add: Cons_eq_append_conv)
  ultimately show "\<forall>l1 b l2. epoch_block cfg = l1 @ Loss b # l2 \<longrightarrow> PostBackwardCallback \<in> set l2"
    unfolding epoch_block_def by (rule after_loss_append)
  show "\<forall>l1 b l2. epoch_block cfg = l1 @ Loss b # l2 \<longrightarrow> PostEpochCallback \<in> set l2"
    unfolding epoch_block_def by (rule after_loss_snoc) simp
qed

lemma schedule_after_loss:
  assumes "schedule cfg = l1 @ Loss b # l2"
  shows "PostBackwardCallback \<in> set l2" and "PostEpochCallback \<in> set l2"
proof -
  have "\<forall>l1 b l2. schedule cfg = l1 @ Loss b # l2 \<longrightarrow> PostBackwardCallback \<in> set l2"
    unfolding schedule_def by (rule after_loss_concat) (simp add: epoch_block_after_loss(1))
  with assms show "PostBackwardCallback \<in> set l2" by blast
  have "\<forall>l1 b l2. schedule cfg = l1 @ Loss b # l2 \<longrightarrow> PostEpochCallback \<in> set l2"
    unfolding schedule_def by (rule after_loss_concat) (simp add: epoch_block_after_loss(2))
  with assms show "PostEpochCallback \<in> set l2" by blast
qed

subsection \<open>Whole runs\<close>

lemma run_Return_facts:
  assumes "run cfg acts st = Inr (Return st' s)" and "\<forall>a\<in>set acts. is_hook a"
  shows "\<exists>l1 b l2. acts = l1 @ Loss b # l2
       \<and> iter_count st' = iter_count st + int (updates_of l1) + 1
       \<and> total_steps cfg \<le> iter_count st'
       \<and> (updates_of l1 = 0 \<or> iter_count st' - 1 < total_steps cfg)
       \<and> hooks (trace st') = hooks (trace st) @ l1 @ [Loss b]
       \<and> save_steps (trace st') = save_steps (trace st)
            @ [k \<leftarrow> [iter_count st + 1..iter_count st']. k mod checkpoint_interval cfg = 0]
            @ [iter_count st']
       \<and> eval_steps (trace st') = eval_steps (trace st)
            @ [k \<leftarrow> [iter_count st + 1..iter_count st']. k mod eval_interval cfg = 0]
            @ [iter_count st']
       \<and> (\<exists>pre. trace st' = pre @ [Save (iter_count st'), Evaluate (iter_count st')]
              \<and> s = evaluate_stats cfg (pre @ [Save (iter_count st')]))"
proof -
  from run_Return [OF assms] obtain l1 b l2 st1 where
    acts: "acts = l1 @ Loss b # l2" and l1: "run cfg l1 st = Inr (Continue st1)"
    and u: "update_step cfg b st1 = Inr (Return st' s)"
    by blast
  from assms(2) acts have "\<forall>a\<in>set l1. is_hook a" by simp
  note C = run_Continue [OF l1 this]
  note U = update_step_Return [OF u]
  have le1: "iter_count st \<le> iter_count st1" using C by simp
  have le2: "iter_count st1 \<le> iter_count st1 + 1" by simp
  have count: "iter_count st' = iter_count st + int (updates_of l1) + 1"
    using C U(1) by simp
  have early: "updates_of l1 = 0 \<or> iter_count st' - 1 < total_steps cfg"
    using C U(1) by auto
  have hk: "hooks (trace st') = hooks (trace st) @ l1 @ [Loss b]"
    using C U(3) by simp
  have sv: "save_steps (trace st') = save_steps (trace st)
            @ [k \<leftarrow> [iter_count st + 1..iter_count st']. k mod checkpoint_interval cfg = 0]
            @ [iter_count st']"
    using C U(1,4) filter_upto_glue [OF le1 le2, of "\<lambda>k. k mod checkpoint_interval cfg = 0"]
    by simp
  have ev: "eval_steps (trace st') = eval_steps (trace st)
            @ [k \<leftarrow> [iter_count st + 1..iter_count st']. k mod eval_interval cfg = 0]
            @ [iter_count st']"
    using C U(1,5) filter_upto_glue [OF le1 le2, of "\<lambda>k. k mod eval_interval cfg = 0"]
    by simp
  from U(6) obtain pre where
    "trace st' = (pre @ [TbarUpdate]) @ [Save (iter_count st'), Evaluate (iter_count st')]"
    and "s = evaluate_stats cfg ((pre @ [TbarUpdate]) @ [Save (iter_count st')])"
    by auto
  then have tl: "\<exists>pre. trace st' = pre @ [Save (iter_count st'), Evaluate (iter_count st')]
              \<and> s = evaluate_stats cfg (pre @ [Save (iter_count st')])"
    by blast
  from acts count U(2) early hk sv ev tl show ?thesis by blast
qed

lemma learn_None:
  "learn cfg = Inr (st, None) \<longleftrightarrow>
     run cfg (schedule cfg) \<lparr>iter_count = 0, trace = [PrepareLearning]\<rparr> = Inr (Continue st)"
  by (auto simp: learn_run split: sum.splits outcome.splits)

lemma learn_Some:
  "learn cfg = Inr (st, Some s) \<longleftrightarrow>
     run cfg (schedule cfg) \<lparr>iter_count = 0, trace = [PrepareLearning]\<rparr> = Inr (Return st s)"
  by (auto simp: learn_run split: sum.splits outcome.splits)

lemma hooks_initial [simp]: "hooks [PrepareLearning] = []"
  by (simp add: hooks_def)

lemma save_steps_initial [simp]: "save_steps [PrepareLearning] = []"
  by (simp add: save_steps_def)

lemma eval_steps_initial [simp]: "eval_steps [PrepareLearning] = []"
  by (simp add: eval_steps_def)

lemma learn_None_facts:
  assumes "learn cfg = Inr (st, None)"
  shows "iter_count st = int (updates_of (schedule cfg))"
    and "updates_of (schedule cfg) = 0 \<or> iter_count st < total_steps cfg"
    and "hooks (trace st) = schedule cfg"
  using run_Continue [OF assms [unfolded learn_None] schedule_hooks] by auto

lemma learn_Some_facts:
  assumes "learn cfg = Inr (st, Some s)"
  shows "\<exists>l1 b l2. schedule cfg = l1 @ Loss b # l2
       \<and> iter_count st = int (updates_of l1) + 1
       \<and> total_steps cfg \<le> iter_count st
       \<and> (updates_of l1 = 0 \<or> iter_count st - 1 < total_steps cfg)
       \<and> hooks (trace st) = l1 @ [Loss b]
       \<and> save_steps (trace st) =
            [k \<leftarrow> [1..iter_count st]. k mod checkpoint_interval cfg = 0] @ [iter_count st]
       \<and> eval_steps (trace st) =
            [k \<leftarrow> [1..iter_count st]. k mod eval_interval cfg = 0] @ [iter_count st]
       \<and> (\<exists>pre. trace st = pre @ [Save (iter_count st), Evaluate (iter_count st)]
              \<and> s = evaluate_stats cfg (pre @ [Save (iter_count st)]))"
  using run_Return_facts [OF assms [unfolded learn_Some] schedule_hooks] by simp

lemma learn_total:
  assumes "checkpoint_interval cfg \<noteq> 0" and "eval_interval cfg \<noteq> 0"
  shows "\<exists>st r. learn cfg = Inr (st, r)"
proof -
  from run_total [OF assms] obtain res where
    "run cfg (schedule cfg) \<lparr>iter_count = 0, trace = [PrepareLearning]\<rparr> = Inr res"
    by blast
  then show ?thesis by (cases res) (simp_all add: learn_run)
qed

lemma learn_count:
  assumes "learn cfg = Inr (st, r)"
  shows "iter_count st = min (int (updates_of (schedule cfg))) (max 1 (total_steps cfg))"
    and "iter_count st = int (updates_of (trace st))"
    and "(r \<noteq> None) = (0 < iter_count st \<and> total_steps cfg \<le> iter_count st)"
proof -
  have "iter_count st = min (int (updates_of (schedule cfg))) (max 1 (total_steps cfg))
      \<and> iter_count st = int (updates_of (trace st))
      \<and> (r \<noteq> None) = (0 < iter_count st \<and> total_steps cfg \<le> iter_count st)"
  proof (cases r)
    case None
    note F = learn_None_facts [OF assms [unfolded None]]
    have "updates_of (trace st) = updates_of (schedule cfg)"
      using F(3) updates_of_hooks [of "trace st"] by simp
    with F None show ?thesis by auto
  next
    case (Some s)
    from learn_Some_facts [OF assms [unfolded Some]] obtain l1 b l2 where
      sch: "schedule cfg = l1 @ Loss b # l2"
      and cnt: "iter_count st = int (updates_of l1) + 1"
      and ge: "total_steps cfg \<le> iter_count st"
      and early: "updates_of l1 = 0 \<or> iter_count st - 1 < total_steps cfg"
      and hk: "hooks (trace st) = l1 @ [Loss b]"
      by blast
    have "updates_of (schedule cfg) = updates_of l1 + 1 + updates_of l2"
      using sch by (simp add: updates_of_Cons [of "Loss b" l2]) (simp add: updates_of_def)
    then have le: "iter_count st \<le> int (updates_of (schedule cfg))" using cnt by simp
    have "updates_of (trace st) = updates_of l1 + 1"
      using hk updates_of_hooks [of "trace st"] by (simp add: updates_of_def)
    with cnt ge early le Some show ?thesis by auto
  qed
  then show "iter_count st = min (int (updates_of (schedule cfg))) (max 1 (total_steps cfg))"
    and "iter_count st = int (updates_of (trace st))"
    and "(r \<noteq> None) = (0 < iter_count st \<and> total_steps cfg \<le> iter_count st)"
    by simp_all
qed

text \<open>
  Claim C1, as amended. When neither interval is zero, \<open>learn\<close> returns, and the final
  \<open>iter_count\<close> is the smaller of the number of updates the loops hold (epochs times batches
  times updates per batch, a negative count read as zero) and \<open>max 1 total_steps\<close>; for
  \<open>total_steps \<ge> 1\<close> that is \<open>min (E * B * U) total_steps\<close>. The counter starts at
  zero and equals the number of updates made, and \<open>learn\<close> returns a value exactly when an
  update has brought the counter to \<open>total_steps\<close> or beyond.
\<close>

theorem learn_iter_count:
  assumes "checkpoint_interval cfg \<noteq> 0" and "eval_interval cfg \<noteq> 0"
  shows "\<exists>st r. learn cfg = Inr (st, r)
       \<and> iter_count st =
           min (int (nat (epochs cfg) * length (train_dataloader cfg) * nat (n_updates_per_batch cfg)))
               (max 1 (total_steps cfg))
       \<and> iter_count st = int (updates_of (trace st))
       \<and> (r \<noteq> None) = (0 < iter_count st \<and> total_steps cfg \<le> iter_count st)"
proof -
  from learn_total [OF assms] obtain st r where l: "learn cfg = Inr (st, r)" by blast
  from learn_count [OF l] l show ?thesis
    unfolding updates_of_schedule by blast
qed

theorem learn_iter_count_witness:
  "checkpoint_interval scenario \<noteq> 0 \<and> eval_interval scenario \<noteq> 0
     \<and> final_count scenario = Some 10 \<and> returned scenario \<noteq> None"
proof -
  have h: "checkpoint_interval scenario \<noteq> 0" "eval_interval scenario \<noteq> 0"
    by (simp_all add: scenario_def)
  from learn_iter_count [OF h] obtain st r where
    "learn scenario = Inr (st, r)"
    and "iter_count st =
           min (int (nat (epochs scenario) * length (train_dataloader scenario)
                  * nat (n_updates_per_batch scenario)))
               (max 1 (total_steps scenario))"
    and "(r \<noteq> None) = (0 < iter_count st \<and> total_steps scenario \<le> iter_count st)"
    by blast
  then show ?thesis
    by (simp add: final_count_def returned_def) (simp add: scenario_def)
qed

text \<open>
  Claim C1 as stated fails for a budget of zero: the check on line 250 comes after the
  increment, so one update is made and the counter ends at \<open>1\<close>, not at
  \<open>min (1 * 1 * 1) 0 = 0\<close>.
\<close>

theorem learn_iter_count_zero_budget:
  "final_count zero_budget = Some 1
     \<and> min (epochs zero_budget * int (length (train_dataloader zero_budget))
              * n_updates_per_batch zero_budget) (total_steps zero_budget) = 0"
  by code_simp

text \<open>
  Claim C2. Whenever a run of \<open>learn\<close> has made an update that brought \<open>iter_count\<close> to
  \<open>total_steps\<close> or beyond, the last two calls of the run are \<open>save\<close> and then
  \<open>evaluate\<close>, and the value returned is what that \<open>evaluate\<close> call gave. The run stopped
  at the first such update (\<open>iter_count = max 1 total_steps\<close>), right after a \<open>loss\<close>
  call of the schedule: everything the schedule holds after it is skipped, and that always
  includes a \<open>post_backward_callback\<close> and a \<open>post_epoch_callback\<close>.
\<close>

theorem learn_returns_at_budget:
  assumes "learn cfg = Inr (st, r)" and "0 < iter_count st" and "total_steps cfg \<le> iter_count st"
  shows "\<exists>pre past b rest.
         trace st = pre @ [Save (iter_count st), Evaluate (iter_count st)]
       \<and> r = Some (evaluate_stats cfg (pre @ [Save (iter_count st)]))
       \<and> iter_count st = max 1 (total_steps cfg)
       \<and> hooks (trace st) = past @ [Loss b]
       \<and> schedule cfg = past @ Loss b # rest
       \<and> PostBackwardCallback \<in> set rest \<and> PostEpochCallback \<in> set rest"
proof -
  from learn_count(3) [OF assms(1)] assms(2,3) obtain s where r: "r = Some s" by auto
  from learn_Some_facts [OF assms(1) [unfolded r]] obtain l1 b l2 pre where
    sch: "schedule cfg = l1 @ Loss b # l2"
    and early: "updates_of l1 = 0 \<or> iter_count st - 1 < total_steps cfg"
    and cnt: "iter_count st = int (updates_of l1) + 1"
    and hk: "hooks (trace st) = l1 @ [Loss b]"
    and tr: "trace st = pre @ [Save (iter_count st), Evaluate (iter_count st)]"
    and s: "s = evaluate_stats cfg (pre @ [Save (iter_count st)])"
    by blast
  have "iter_count st = max 1 (total_steps cfg)" using early cnt assms(3) by auto
  with schedule_after_loss [OF sch] sch hk tr s r show ?thesis by blast
qed

text \<open>
  Eight updates are scheduled and the budget is three: the run stops inside the second batch.
\<close>

theorem learn_returns_at_budget_witness:
  "\<exists>pre past b rest.
         final_trace interrupted = pre @ [Save 3, Evaluate 3]
       \<and> returned interrupted = Some (evaluate_stats interrupted (pre @ [Save 3]))
       \<and> hooks (final_trace interrupted) = past @ [Loss b]
       \<and> schedule interrupted = past @ Loss b # rest
       \<and> PostBackwardCallback \<in> set rest \<and> PostEpochCallback \<in> set rest"
proof -
  have "checkpoint_interval interrupted \<noteq> 0" and "eval_interval interrupted \<noteq> 0"
    by (simp_all add: interrupted_def unhurried_def)
  from learn_total [OF this] obtain st r where l: "learn interrupted = Inr (st, r)" by blast
  have "final_count interrupted = Some 3" by code_simp
  with l have c: "iter_count st = 3" by (simp add: final_count_def)
  have t: "total_steps interrupted = 3" by (simp add: interrupted_def)
  from learn_returns_at_budget [OF l] c t l show ?thesis
    by (simp add: final_trace_def returned_def)
qed

text \<open>
  Claim C3, as amended. When neither interval is zero and the loops hold at least
  \<open>max 1 total_steps\<close> updates, \<open>learn\<close> returns at step \<open>max 1 total_steps\<close> with
  \<open>save\<close> and \<open>evaluate\<close> as its last two calls. Over the whole run \<open>save\<close> is called at
  every multiple of \<open>checkpoint_interval\<close> up to and including that step and once more at
  that step, and \<open>evaluate\<close> at every multiple of \<open>eval_interval\<close> up to and including
  that step and once more at that step. In the scenario these are the steps
  \<open>5, 10, 10\<close> and \<open>10, 10\<close>.
\<close>

theorem learn_terminal_checkpoint:
  assumes "checkpoint_interval cfg \<noteq> 0" and "eval_interval cfg \<noteq> 0"
    and "max 1 (total_steps cfg) \<le>
           int (nat (epochs cfg) * length (train_dataloader cfg) * nat (n_updates_per_batch cfg))"
  shows "\<exists>st s pre. learn cfg = Inr (st, Some s)
       \<and> iter_count st = max 1 (total_steps cfg)
       \<and> trace st = pre @ [Save (iter_count st), Evaluate (iter_count st)]
       \<and> s = evaluate_stats cfg (pre @ [Save (iter_count st)])
       \<and> save_steps (trace st) =
            [k \<leftarrow> [1..iter_count st]. k mod checkpoint_interval cfg = 0] @ [iter_count st]
       \<and> eval_steps (trace st) =
            [k \<leftarrow> [1..iter_count st]. k mod eval_interval cfg = 0] @ [iter_count st]"
proof -
  from learn_total [OF assms(1,2)] obtain st r where l: "learn cfg = Inr (st, r)" by blast
  note C = learn_count [OF l, unfolded updates_of_schedule]
  from C(1) assms(3) have cnt: "iter_count st = max 1 (total_steps cfg)" by simp
  with C(3) obtain s where r: "r = Some s" by auto
  from learn_Some_facts [OF l [unfolded r]] l r cnt show ?thesis by auto
qed

text \<open>
  The scenario, from the theorem.
\<close>

theorem learn_terminal_checkpoint_witness:
  "save_steps (final_trace scenario) = [5, 10, 10] \<and> eval_steps (final_trace scenario) = [10, 10]
     \<and> returned scenario \<noteq> None"
proof -
  have "checkpoint_interval scenario \<noteq> 0" and "eval_interval scenario \<noteq> 0"
    and "max 1 (total_steps scenario) \<le>
           int (nat (epochs scenario) * length (train_dataloader scenario)
                  * nat (n_updates_per_batch scenario))"
    by (simp_all add: scenario_def)
  from learn_terminal_checkpoint [OF this] obtain st s where
    "learn scenario = Inr (st, Some s)"
    and "iter_count st = max 1 (total_steps scenario)"
    and "save_steps (trace st) =
            [k \<leftarrow> [1..iter_count st]. k mod checkpoint_interval scenario = 0] @ [iter_count st]"
    and "eval_steps (trace st) =
            [k \<leftarrow> [1..iter_count st]. k mod eval_interval scenario = 0] @ [iter_count st]"
    by blast
  moreover have "[k \<leftarrow> [1..10]. k mod 5 = 0] = [5, 10 :: int]"
    and "[k \<leftarrow> [1..10]. k mod 10 = 0] = [10 :: int]"
    by code_simp+
  ultimately show ?thesis
    by (simp add: final_trace_def returned_def) (simp add: scenario_def)
qed

text \<open>
  Claim C3 as stated fails in its own scenario: at step ten the interval check on line 234
  and the budget check on line 250 both call \<open>evaluate\<close>, and lines 231 and 251 both
  call \<open>save\<close>.
\<close>

theorem learn_scenario_evaluates_twice:
  "eval_steps (final_trace scenario) = [10, 10]
     \<and> length (eval_steps (final_trace scenario)) \<noteq> 1
     \<and> save_steps (final_trace scenario) = [5, 10, 10]
     \<and> length (save_steps (final_trace scenario)) \<noteq> 2"
  by code_simp

text \<open>
  Claim C9. In every run of \<open>learn\<close> the \<open>loss\<close> calls and the callbacks made are an
  initial segment of the schedule, so no callback comes before the updates of its batch or
  the batches of its epoch. In a run that is not cut short (it returns \<open>None\<close>) they are the
  whole schedule: in every epoch, for every batch, \<open>n_updates_per_batch\<close> updates and then
  one \<open>post_backward_callback\<close>, and one \<open>post_epoch_callback\<close> after the last batch.
\<close>

theorem learn_callbacks:
  assumes "learn cfg = Inr (st, r)"
  shows "prefix (hooks (trace st)) (schedule cfg)
       \<and> (r = None \<longrightarrow>
            hooks (trace st) =
              concat (replicate (nat (epochs cfg))
                (concat (map (\<lambda>b. replicate (nat (n_updates_per_batch cfg)) (Loss b)
                                   @ [PostBackwardCallback])
                          (train_dataloader cfg))
                 @ [PostEpochCallback])))"
proof (cases r)
  case None
  have "batch_block cfg =
          (\<lambda>b. replicate (nat (n_updates_per_batch cfg)) (Loss b) @ [PostBackwardCallback])"
    by (rule ext) (simp add: batch_block_def)
  with learn_None_facts(3) [OF assms [unfolded None]] None show ?thesis
    by (simp add: schedule_def epoch_block_def)
next
  case (Some s)
  from learn_Some_facts [OF assms [unfolded Some]] obtain l1 b l2 where
    "schedule cfg = l1 @ Loss b # l2" and "hooks (trace st) = l1 @ [Loss b]"
    by blast
  with Some show ?thesis by (simp add: prefix_def)
qed

text \<open>
  Two epochs of two batches with two updates each, and a budget that is never reached.
\<close>

theorem learn_callbacks_witness:
  "returned unhurried = None
     \<and> hooks (final_trace unhurried) =
         [Loss 0, Loss 0, PostBackwardCallback, Loss 1, Loss 1, PostBackwardCallback,
          PostEpochCallback,
          Loss 0, Loss 0, PostBackwardCallback, Loss 1, Loss 1, PostBackwardCallback,
          PostEpochCallback]"
proof -
  have "checkpoint_interval unhurried \<noteq> 0" and "eval_interval unhurried \<noteq> 0"
    by (simp_all add: unhurried_def)
  from learn_total [OF this] obtain st r where l: "learn unhurried = Inr (st, r)" by blast
  have n: "returned unhurried = None" by code_simp
  with l have r: "r = None" by (simp add: returned_def)
  have "nat (epochs unhurried) = 2" and "nat (n_updates_per_batch unhurried) = 2"
    and "train_dataloader unhurried = [0, 1]"
    by (simp_all add: unhurried_def)
  with learn_callbacks [OF l] r l n show ?thesis
    by (simp add: final_trace_def numeral_2_eq_2)
qed

section \<open>Properties of the layer-freeze policy\<close>

lemma requires_grad_False_eq:
  "requires_grad_False ms requires_grad = (\<lambda>m. requires_grad m \<and> m \<notin> set ms)"
  by (induction ms arbitrary: requires_grad) auto

lemma slice_to_negative:
  "0 < n \<Longrightarrow> slice_to xs (- n) = take (nat (max 0 (int (length xs) - n))) xs"
  by (simp add: slice_to_def Let_def)

text \<open>
  Claim C4. For every list of blocks and every integer \<open>n = num_layers_unfrozen\<close>, the
  blocks frozen are a leading part of the list: all of them when \<open>n = 0\<close>, the first
  \<open>max 0 (len - n)\<close> when \<open>n > 0\<close> (none once \<open>n\<close> exceeds the number of blocks), and
  none when \<open>n < 0\<close>. After the loop a module requires gradients exactly when it did before
  and is not among those blocks.
\<close>

theorem freeze_policy:
  "gpt_blocks_to_freeze blocks n =
     take (if n = 0 then length blocks
           else if 0 < n then nat (max 0 (int (length blocks) - n))
           else 0) blocks
   \<and> length (gpt_blocks_to_freeze blocks n) =
       (if n = 0 then length blocks
        else if 0 < n then nat (max 0 (int (length blocks) - n))
        else 0)
   \<and> freeze_layers blocks n requires_grad =
       (\<lambda>m. requires_grad m \<and> m \<notin> set (gpt_blocks_to_freeze blocks n))"
proof -
  have "gpt_blocks_to_freeze blocks n =
     take (if n = 0 then length blocks
           else if 0 < n then nat (max 0 (int (length blocks) - n))
           else 0) blocks"
    by (simp add: gpt_blocks_to_freeze_def slice_to_negative)
  moreover from this have "length (gpt_blocks_to_freeze blocks n) =
       (if n = 0 then length blocks
        else if 0 < n then nat (max 0 (int (length blocks) - n))
        else 0)"
    by auto
  ultimately show ?thesis
    by (simp only: freeze_layers_def requires_grad_False_eq simp_thms)
qed

text \<open>
  Six blocks: \<open>n = 0\<close> freezes all, \<open>n = 2\<close> the first four, \<open>n = 7\<close> and \<open>n = -1\<close> none.
\<close>

theorem freeze_policy_witness:
  "gpt_blocks_to_freeze six_blocks 0 = [0, 1, 2, 3, 4, 5]
     \<and> gpt_blocks_to_freeze six_blocks 2 = [0, 1, 2, 3]
     \<and> gpt_blocks_to_freeze six_blocks 7 = []
     \<and> gpt_blocks_to_freeze six_blocks (- 1) = []
     \<and> filter (freeze_layers six_blocks 2 (\<lambda>m. True)) six_blocks = [4, 5]"
  using freeze_policy [of six_blocks 0] freeze_policy [of six_blocks 2 "\<lambda>m. True"]
    freeze_policy [of six_blocks 7] freeze_policy [of six_blocks "- 1"]
  by (simp add: six_blocks_def)

section \<open>Properties of \<open>generate\<close>\<close>

text \<open>
  Claim C8. For all defaults and all keyword arguments of the caller that leave the names
  \<open>input_ids\<close> and \<open>attention_mask\<close> alone (they are passed by name already), \<open>generate\<close>
  makes one decoding call: every key takes the caller's value where the caller gives one and
  the default otherwise, gradient tracking is off during the call, and the mode found on
  entry is the mode left behind.
\<close>

theorem generate_merges_kwargs:
  assumes "generate_kwargs self ''input_ids'' = None" and "kwargs ''input_ids'' = None"
    and "generate_kwargs self ''attention_mask'' = None" and "kwargs ''attention_mask'' = None"
  shows "\<exists>c. generate self ids att_mask kwargs grad_mode = Inr (model_generate self c, grad_mode)
       \<and> (\<forall>k. decoding_kwargs c k =
                 (case kwargs k of Some v \<Rightarrow> Some v | None \<Rightarrow> generate_kwargs self k))
       \<and> \<not> grad_enabled c
       \<and> input_ids c = to_device self ids
       \<and> attention_mask c = map_option (to_device self) att_mask"
proof -
  let ?c = "\<lparr>input_ids = to_device self ids,
             attention_mask = map_option (to_device self) att_mask,
             decoding_kwargs = generate_kwargs self ++ kwargs,
             grad_enabled = False\<rparr>"
  have "generate self ids att_mask kwargs grad_mode = Inr (model_generate self ?c, grad_mode)"
    using assms by (simp add: generate_def Let_def map_add_def split: option.splits)
  moreover have "\<forall>k. decoding_kwargs ?c k =
                 (case kwargs k of Some v \<Rightarrow> Some v | None \<Rightarrow> generate_kwargs self k)"
    by (simp add: map_add_def split: option.splits)
  ultimately show ?thesis by (intro exI [of _ ?c]) simp
qed

text \<open>
  The caller overrides \<open>top_k\<close> and adds \<open>do_sample\<close>; \<open>max_length\<close> keeps its default.
\<close>

theorem generate_merges_kwargs_witness:
  "\<exists>c. generate echo 5 None [''top_k'' \<mapsto> 50, ''do_sample'' \<mapsto> 1] True = Inr (c, True)
       \<and> decoding_kwargs c ''top_k'' = Some 50
       \<and> decoding_kwargs c ''max_length'' = Some 48
       \<and> decoding_kwargs c ''do_sample'' = Some 1
       \<and> decoding_kwargs c ''num_beams'' = None
       \<and> \<not> grad_enabled c"
proof -
  have "generate_kwargs echo ''input_ids'' = None"
    and "[''top_k'' \<mapsto> 50, ''do_sample'' \<mapsto> 1 :: int] ''input_ids'' = None"
    and "generate_kwargs echo ''attention_mask'' = None"
    and "[''top_k'' \<mapsto> 50, ''do_sample'' \<mapsto> 1 :: int] ''attention_mask'' = None"
    by (simp_all add: echo_def)
  from generate_merges_kwargs [OF this, of 5 None True] obtain c where
    "generate echo 5 None [''top_k'' \<mapsto> 50, ''do_sample'' \<mapsto> 1] True
       = Inr (model_generate echo c, True)"
    and "\<forall>k. decoding_kwargs c k =
                 (case [''top_k'' \<mapsto> 50, ''do_sample'' \<mapsto> 1 :: int] k of
                    Some v \<Rightarrow> Some v | None \<Rightarrow> generate_kwargs echo k)"
    and "\<not> grad_enabled c"
    by blast
  then show ?thesis by (simp add: echo_def)
qed

section \<open>Properties of \<open>evaluate\<close>\<close>

subsection \<open>Padding and stacking\<close>

lemma F_pad_width: "F_pad t a v = Inr u \<Longrightarrow> int (width u) = int (width t) + a"
  by (auto simp: F_pad_def Let_def split: if_splits)

lemma F_pad_extend:
  "0 \<le> a \<Longrightarrow> F_pad t a v = Inr u \<Longrightarrow> rows u = map (\<lambda>r. r @ replicate (nat a) v) (rows t)"
  by (auto simp: F_pad_def Let_def split: if_splits)

lemma F_pad_crop:
  "a < 0 \<Longrightarrow> F_pad t a v = Inr u \<Longrightarrow> rows u = map (take (nat (int (width t) + a))) (rows t)"
  by (auto simp: F_pad_def Let_def split: if_splits)

lemma F_pad_rectangular:
  "rectangular t \<Longrightarrow> F_pad t a v = Inr u \<Longrightarrow> rectangular u"
  by (auto simp: F_pad_def Let_def rectangular_def list_all_iff split: if_splits)

lemma F_pad_total: "0 \<le> int (width t) + a \<Longrightarrow> \<exists>u. F_pad t a v = Inr u"
  by (simp add: F_pad_def Let_def)

lemma pad_all_Inr:
  assumes "pad_all self ps acc = Inr all_samples"
  shows "\<exists>padded. all_samples = acc @ padded
       \<and> list_all2 (\<lambda>prompts u.
            F_pad (unwrap (generate_samples self prompts))
              (max_length self - int (width (unwrap (generate_samples self prompts))))
              (pad_token self) = Inr u) ps padded"
  using assms
proof (induction ps arbitrary: acc)
  case Nil
  then show ?case by simp
next
  case (Cons p ps)
  from Cons.prems obtain u where
    u: "F_pad (unwrap (generate_samples self p))
          (max_length self - int (width (unwrap (generate_samples self p)))) (pad_token self) = Inr u"
    and rest: "pad_all self ps (acc @ [u]) = Inr all_samples"
    by (auto simp: Let_def split: sum.splits)
  from Cons.IH [OF rest] obtain padded where
    "all_samples = (acc @ [u]) @ padded"
    and "list_all2 (\<lambda>prompts u.
            F_pad (unwrap (generate_samples self prompts))
              (max_length self - int (width (unwrap (generate_samples self prompts))))
              (pad_token self) = Inr u) ps padded"
    by blast
  with u have "all_samples = acc @ (u # padded)
       \<and> list_all2 (\<lambda>prompts u.
            F_pad (unwrap (generate_samples self prompts))
              (max_length self - int (width (unwrap (generate_samples self prompts))))
              (pad_token self) = Inr u) (p # ps) (u # padded)"
    by simp
  then show ?case by blast
qed

lemma pad_all_total:
  assumes "0 \<le> max_length self"
  shows "\<exists>all_samples. pad_all self ps acc = Inr all_samples"
proof (induction ps arbitrary: acc)
  case Nil
  show ?case by simp
next
  case (Cons p ps)
  from assms F_pad_total [of "unwrap (generate_samples self p)"
      "max_length self - int (width (unwrap (generate_samples self p)))" "pad_token self"]
  obtain u where
    "F_pad (unwrap (generate_samples self p))
          (max_length self - int (width (unwrap (generate_samples self p)))) (pad_token self) = Inr u"
    by auto
  with Cons.IH [of "acc @ [u]"] show ?case by (simp add: Let_def)
qed

lemma padded_facts:
  assumes "F_pad t (L - int (width t)) v = Inr u"
  shows "int (width u) = L"
    and "int (width t) \<le> L \<Longrightarrow> rows u = map (\<lambda>r. r @ replicate (nat L - width t) v) (rows t)"
    and "L < int (width t) \<Longrightarrow> rows u = map (take (nat L)) (rows t)"
    and "rectangular t \<Longrightarrow> list_all (\<lambda>r. int (length r) = L) (rows u)"
proof -
  show w: "int (width u) = L" using F_pad_width [OF assms] by simp
  show "rows u = map (\<lambda>r. r @ replicate (nat L - width t) v) (rows t)" if "int (width t) \<le> L"
  proof -
    from that have "nat (L - int (width t)) = nat L - width t" by simp
    with F_pad_extend [OF _ assms] that show ?thesis by simp
  qed
  show "rows u = map (take (nat L)) (rows t)" if "L < int (width t)"
    using F_pad_crop [OF _ assms] that by simp
  show "list_all (\<lambda>r. int (length r) = L) (rows u)" if "rectangular t"
    using F_pad_rectangular [OF that assms] w by (simp add: rectangular_def list_all_iff)
qed

text \<open>
  Claim C5. When the loop over \<open>eval_dataloader\<close> completes, it has accumulated one tensor
  per prompt batch, in order, each of width \<open>max_length\<close>. For samples no wider than
  \<open>max_length\<close> every row is the generated row followed by \<open>max_length - width\<close> copies of
  the pad value, which is the tokenizer's \<open>eos_token_id\<close> when there is a tokenizer and
  \<open>0\<close> when there is none.
\<close>

theorem evaluate_pads_samples:
  assumes "pad_all self (eval_dataloader self) [] = Inr all_samples"
  shows "list_all2
           (\<lambda>prompts padded.
              int (width padded) = max_length self
            \<and> (int (width (unwrap (generate_samples self prompts))) \<le> max_length self \<longrightarrow>
                 rows padded =
                   map (\<lambda>r. r @ replicate
                                 (nat (max_length self) - width (unwrap (generate_samples self prompts)))
                                 (case tokenizer self of Some tk \<Rightarrow> eos_token_id tk | None \<Rightarrow> 0))
                       (rows (unwrap (generate_samples self prompts))))
            \<and> (rectangular (unwrap (generate_samples self prompts)) \<longrightarrow>
                 list_all (\<lambda>r. int (length r) = max_length self) (rows padded)))
           (eval_dataloader self) all_samples"
proof -
  from pad_all_Inr [OF assms] have
    "list_all2 (\<lambda>prompts u.
            F_pad (unwrap (generate_samples self prompts))
              (max_length self - int (width (unwrap (generate_samples self prompts))))
              (pad_token self) = Inr u) (eval_dataloader self) all_samples"
    by simp
  then show ?thesis
  proof (rule list_all2_mono)
    fix prompts padded
    assume "F_pad (unwrap (generate_samples self prompts))
              (max_length self - int (width (unwrap (generate_samples self prompts))))
              (pad_token self) = Inr padded"
    from padded_facts [OF this]
    show "int (width padded) = max_length self
            \<and> (int (width (unwrap (generate_samples self prompts))) \<le> max_length self \<longrightarrow>
                 rows padded =
                   map (\<lambda>r. r @ replicate
                                 (nat (max_length self) - width (unwrap (generate_samples self prompts)))
                                 (case tokenizer self of Some tk \<Rightarrow> eos_token_id tk | None \<Rightarrow> 0))
                       (rows (unwrap (generate_samples self prompts))))
            \<and> (rectangular (unwrap (generate_samples self prompts)) \<longrightarrow>
                 list_all (\<lambda>r. int (length r) = max_length self) (rows padded))"
      by (simp add: pad_token_def)
  qed
qed

text \<open>
  Three prompts, samples of width two, \<open>max_length = 20\<close>, no tokenizer: eighteen zeros each.
\<close>

theorem evaluate_pads_samples_witness:
  "\<exists>all_samples. pad_all three_prompts (eval_dataloader three_prompts) [] = Inr all_samples
     \<and> list_all2 (\<lambda>p padded. width padded = 20 \<and> rows padded = [[int p, 7] @ replicate 18 0])
         [0, 1, 2] all_samples"
proof -
  have "0 \<le> max_length three_prompts" by (simp add: three_prompts_def)
  from pad_all_total [OF this] obtain all_samples where
    p: "pad_all three_prompts (eval_dataloader three_prompts) [] = Inr all_samples"
    by blast
  from evaluate_pads_samples [OF p]
  have "list_all2 (\<lambda>p padded. width padded = 20 \<and> rows padded = [[int p, 7] @ replicate 18 0])
         (eval_dataloader three_prompts) all_samples"
    by (rule list_all2_mono) (simp add: three_prompts_def)
  with p show ?thesis by (auto simp: three_prompts_def)
qed

lemma vstack_same_width:
  assumes "list_all (\<lambda>u. width u = w) ts"
  shows "vstack ts \<noteq> Inl (RuntimeError SizesMustMatch)"
    and "ts \<noteq> [] \<Longrightarrow> vstack ts = Inr \<lparr>width = w, rows = concat (map rows ts)\<rparr>"
proof -
  show "vstack ts \<noteq> Inl (RuntimeError SizesMustMatch)"
    using assms by (cases ts) (auto simp: vstack_def list_all_iff)
  show "vstack ts = Inr \<lparr>width = w, rows = concat (map rows ts)\<rparr>" if "ts \<noteq> []"
    using assms that by (cases ts) (auto simp: vstack_def list_all_iff)
qed

text \<open>
  Claim C10. For a positive \<open>max_length\<close> the loop over \<open>eval_dataloader\<close> never raises, and
  every accumulated tensor has width \<open>max_length\<close>, also for samples wider than that: their
  rows are cut to the first \<open>max_length\<close> entries. Hence \<open>vstack\<close> never refuses the
  accumulated tensors for unequal widths, and stacks them whenever there is at least one.
\<close>

theorem evaluate_truncates_overlong:
  assumes "0 < max_length self"
  shows "\<exists>all_samples. pad_all self (eval_dataloader self) [] = Inr all_samples
       \<and> list_all (\<lambda>padded. int (width padded) = max_length self) all_samples
       \<and> list_all2
           (\<lambda>prompts padded.
              (max_length self < int (width (unwrap (generate_samples self prompts))) \<longrightarrow>
                 rows padded =
                   map (take (nat (max_length self))) (rows (unwrap (generate_samples self prompts))))
            \<and> (rectangular (unwrap (generate_samples self prompts)) \<longrightarrow>
                 list_all (\<lambda>r. int (length r) = max_length self) (rows padded)))
           (eval_dataloader self) all_samples
       \<and> vstack all_samples \<noteq> Inl (RuntimeError SizesMustMatch)
       \<and> (eval_dataloader self \<noteq> [] \<longrightarrow>
            vstack all_samples =
              Inr \<lparr>width = nat (max_length self), rows = concat (map rows all_samples)\<rparr>)"
proof -
  from assms have "0 \<le> max_length self" by simp
  from pad_all_total [OF this] obtain all_samples where
    p: "pad_all self (eval_dataloader self) [] = Inr all_samples"
    by blast
  from pad_all_Inr [OF p] have F:
    "list_all2 (\<lambda>prompts u.
            F_pad (unwrap (generate_samples self prompts))
              (max_length self - int (width (unwrap (generate_samples self prompts))))
              (pad_token self) = Inr u) (eval_dataloader self) all_samples"
    by simp
  have rowsP: "list_all2
           (\<lambda>prompts padded.
              (max_length self < int (width (unwrap (generate_samples self prompts))) \<longrightarrow>
                 rows padded =
                   map (take (nat (max_length self))) (rows (unwrap (generate_samples self prompts))))
            \<and> (rectangular (unwrap (generate_samples self prompts)) \<longrightarrow>
                 list_all (\<lambda>r. int (length r) = max_length self) (rows padded)))
           (eval_dataloader self) all_samples"
    using F by (rule list_all2_mono) (simp add: padded_facts)
  have "list_all2 (\<lambda>prompts padded. int (width padded) = max_length self)
          (eval_dataloader self) all_samples"
    using F by (rule list_all2_mono) (simp add: padded_facts)
  then have "\<forall>padded\<in>set all_samples. int (width padded) = max_length self"
    by (auto simp: list_all2_conv_all_nth in_set_conv_nth)
  then have widths: "list_all (\<lambda>padded. int (width padded) = max_length self) all_samples"
    and same: "list_all (\<lambda>u. width u = nat (max_length self)) all_samples"
    by (auto simp: list_all_iff)
  from F have len: "length (eval_dataloader self) = length all_samples"
    by (rule list_all2_lengthD)
  have "eval_dataloader self \<noteq> [] \<longrightarrow>
            vstack all_samples =
              Inr \<lparr>width = nat (max_length self), rows = concat (map rows all_samples)\<rparr>"
  proof
    assume "eval_dataloader self \<noteq> []"
    with len have "all_samples \<noteq> []" by auto
    then show "vstack all_samples =
              Inr \<lparr>width = nat (max_length self), rows = concat (map rows all_samples)\<rparr>"
      by (rule vstack_same_width(2) [OF same])
  qed
  with p widths rowsP vstack_same_width(1) [OF same] show ?thesis by blast
qed

text \<open>
  Samples of widths three, four and five with \<open>max_length = 4\<close>: padded, kept, and cut.
\<close>

theorem evaluate_truncates_overlong_witness:
  "\<exists>all_samples. pad_all overlong (eval_dataloader overlong) [] = Inr all_samples
     \<and> vstack all_samples =
         Inr \<lparr>width = 4, rows = [[0, 0, 0, 0], [1, 1, 1, 1], [2, 2, 2, 2]]\<rparr>"
proof -
  have "0 < max_length overlong" by (simp add: overlong_def three_prompts_def)
  from evaluate_truncates_overlong [OF this] obtain all_samples where
    p: "pad_all overlong (eval_dataloader overlong) [] = Inr all_samples"
    and v: "eval_dataloader overlong \<noteq> [] \<longrightarrow>
            vstack all_samples =
              Inr \<lparr>width = nat (max_length overlong), rows = concat (map rows all_samples)\<rparr>"
    by blast
  have "pad_all overlong (eval_dataloader overlong) [] =
          Inr [\<lparr>width = 4, rows = [[0, 0, 0, 0]]\<rparr>, \<lparr>width = 4, rows = [[1, 1, 1, 1]]\<rparr>,
               \<lparr>width = 4, rows = [[2, 2, 2, 2]]\<rparr>]"
    by code_simp
  with p have "all_samples =
          [\<lparr>width = 4, rows = [[0, 0, 0, 0]]\<rparr>, \<lparr>width = 4, rows = [[1, 1, 1, 1]]\<rparr>,
           \<lparr>width = 4, rows = [[2, 2, 2, 2]]\<rparr>]"
    by simp
  with p v show ?thesis by (simp add: overlong_def three_prompts_def)
qed

subsection \<open>The statistics\<close>

lemma mean_metrics_other:
  "(\<And>k. key \<noteq> ''metrics/'' @ k) \<Longrightarrow> mean_metrics self ms d key = d key"
  by (induction self ms d rule: mean_metrics.induct) auto

lemma dom_mean_metrics:
  "dom (mean_metrics self ms d) = dom d \<union> (\<lambda>name. ''metrics/'' @ name) ` fst ` set ms"
proof (induction ms arbitrary: d)
  case Nil
  show ?case by simp
next
  case (Cons entry ms)
  obtain k xs where entry: "entry = (k, xs)" by (cases entry)
  have "dom (mean_metrics self (entry # ms) d) =
          dom (d(''metrics/'' @ k \<mapsto> Mean (tensor_mean self (map (to_float32 self) xs))))
            \<union> (\<lambda>name. ''metrics/'' @ name) ` fst ` set ms"
    unfolding entry mean_metrics.simps by (rule Cons.IH)
  also have "\<dots> = dom d \<union> (\<lambda>name. ''metrics/'' @ name) ` fst ` set (entry # ms)"
    unfolding entry dom_fun_upd by auto
  finally show ?case .
qed

lemma add_reward_fields:
  "stats (add_reward self smp st) =
     (case reward_fn self of
        None \<Rightarrow> stats st
      | Some f \<Rightarrow>
          (stats st)(''mean_reward'' \<mapsto> Mean (tensor_mean self (map (to_float32 self) (f smp)))))"
  "calls (add_reward self smp st) =
     calls st @ (case reward_fn self of None \<Rightarrow> [] | Some f \<Rightarrow> [RewardFn smp])"
  by (simp_all add: add_reward_def Let_def split: option.splits)

lemma add_metrics_fields:
  "stats (add_metrics self smp st) =
     (case metric_fn self of
        None \<Rightarrow> stats st
      | Some f \<Rightarrow>
          (stats st)(''metric_time'' \<mapsto> Seconds (clock self 3 - clock self 2))
            ++ mean_metrics self (f smp) Map.empty)"
  "calls (add_metrics self smp st) =
     calls st @ (case metric_fn self of None \<Rightarrow> [] | Some f \<Rightarrow> [MetricFn smp])"
  by (simp_all add: add_metrics_def Let_def split: option.splits)

lemma evaluate_not_main:
  assumes "evaluate self = Inr (st, cs)" and "\<not> is_main_process self"
  shows "st = [''generate_time'' \<mapsto> Seconds (clock self 1 - clock self 0)]" and "cs = []"
  using assms by (auto simp: evaluate_def Let_def split: sum.splits)

lemma evaluate_main:
  assumes "evaluate self = Inr (st, cs)" and "is_main_process self"
  shows "\<exists>g column. gathered_samples self = Inr g
       \<and> sample_column (decoded self g) = Inr column
       \<and> st = (stats (add_metrics self (decoded self g) (add_reward self (decoded self g)
                  \<lparr>columns = [''samples''], columns_data = [column],
                   stats = [''generate_time'' \<mapsto> Seconds (clock self 1 - clock self 0)],
                   calls = []\<rparr>)))
               (''samples'' \<mapsto>
                  Table (columns (add_metrics self (decoded self g) (add_reward self (decoded self g)
                           \<lparr>columns = [''samples''], columns_data = [column],
                            stats = [''generate_time'' \<mapsto> Seconds (clock self 1 - clock self 0)],
                            calls = []\<rparr>)))
                        (zip_rows (columns_data (add_metrics self (decoded self g)
                           (add_reward self (decoded self g)
                           \<lparr>columns = [''samples''], columns_data = [column],
                            stats = [''generate_time'' \<mapsto> Seconds (clock self 1 - clock self 0)],
                            calls = []\<rparr>)))))
       \<and> cs = calls (add_metrics self (decoded self g) (add_reward self (decoded self g)
                  \<lparr>columns = [''samples''], columns_data = [column],
                   stats = [''generate_time'' \<mapsto> Seconds (clock self 1 - clock self 0)],
                   calls = []\<rparr>))"
  using assms
  by (auto simp: evaluate_def gathered_samples_def Let_def split: sum.splits if_splits)

text \<open>
  Claim C7, as amended. Let a reward function be supplied and let \<open>evaluate\<close> return. On the
  main process the function has been called exactly once, on all the gathered samples (decoded
  if there is a tokenizer), and \<open>stats["mean_reward"]\<close> is the mean \<open>torch\<close> takes of the
  returned scalars after casting them to float32. That is their arithmetic mean whenever the
  cast keeps every scalar and the float32 mean of the tensor is exact. Off the main process
  the function has not been called and \<open>stats\<close> has no \<open>mean_reward\<close>.
\<close>

theorem evaluate_mean_reward:
  assumes "evaluate self = Inr (st, cs)" and "reward_fn self = Some f"
  shows "(is_main_process self \<longrightarrow>
            (\<exists>g. gathered_samples self = Inr g
               \<and> reward_calls cs = [decoded self g]
               \<and> st ''mean_reward'' =
                   Some (Mean (tensor_mean self (map (to_float32 self) (f (decoded self g)))))
               \<and> (map (to_float32 self) (f (decoded self g)) = map Finite (f (decoded self g))
                    \<and> tensor_mean self (map Finite (f (decoded self g))) =
                        Finite (arithmetic_mean (f (decoded self g)))
                  \<longrightarrow> st ''mean_reward'' =
                        Some (Mean (Finite (arithmetic_mean (f (decoded self g))))))))
       \<and> (\<not> is_main_process self \<longrightarrow> reward_calls cs = [] \<and> st ''mean_reward'' = None)"
proof (cases "is_main_process self")
  case False
  from evaluate_not_main [OF assms(1) False] False show ?thesis
    by (simp add: reward_calls_def)
next
  case True
  from evaluate_main [OF assms(1) True] obtain g column where
    g: "gathered_samples self = Inr g"
    and st: "st = (stats (add_metrics self (decoded self g) (add_reward self (decoded self g)
                  \<lparr>columns = [''samples''], columns_data = [column],
                   stats = [''generate_time'' \<mapsto> Seconds (clock self 1 - clock self 0)],
                   calls = []\<rparr>)))
               (''samples'' \<mapsto>
                  Table (columns (add_metrics self (decoded self g) (add_reward self (decoded self g)
                           \<lparr>columns = [''samples''], columns_data = [column],
                            stats = [''generate_time'' \<mapsto> Seconds (clock self 1 - clock self 0)],
                            calls = []\<rparr>)))
                        (zip_rows (columns_data (add_metrics self (decoded self g)
                           (add_reward self (decoded self g)
                           \<lparr>columns = [''samples''], columns_data = [column],
                            stats = [''generate_time'' \<mapsto> Seconds (clock self 1 - clock self 0)],
                            calls = []\<rparr>)))))"
    and cs: "cs = calls (add_metrics self (decoded self g) (add_reward self (decoded self g)
                  \<lparr>columns = [''samples''], columns_data = [column],
                   stats = [''generate_time'' \<mapsto> Seconds (clock self 1 - clock self 0)],
                   calls = []\<rparr>))"
    by blast
  have other: "\<And>d ms. mean_metrics self ms d ''mean_reward'' = d ''mean_reward''"
    by (rule mean_metrics_other) simp
  have called: "reward_calls cs = [decoded self g]"
    unfolding cs using assms(2)
    by (simp add: add_metrics_fields add_reward_fields reward_calls_def split: option.splits)
  have stored: "st ''mean_reward'' =
      Some (Mean (tensor_mean self (map (to_float32 self) (f (decoded self g)))))"
    unfolding st using assms(2)
    by (simp add: add_metrics_fields add_reward_fields map_add_def other split: option.splits)
  have "map (to_float32 self) (f (decoded self g)) = map Finite (f (decoded self g))
          \<and> tensor_mean self (map Finite (f (decoded self g))) =
              Finite (arithmetic_mean (f (decoded self g)))
        \<longrightarrow> st ''mean_reward'' = Some (Mean (Finite (arithmetic_mean (f (decoded self g)))))"
  proof
    assume exact: "map (to_float32 self) (f (decoded self g)) = map Finite (f (decoded self g))
          \<and> tensor_mean self (map Finite (f (decoded self g))) =
              Finite (arithmetic_mean (f (decoded self g)))"
    from exact have kept: "map (to_float32 self) (f (decoded self g)) = map Finite (f (decoded self g))"
      by (rule conjunct1)
    from exact have "tensor_mean self (map Finite (f (decoded self g))) =
              Finite (arithmetic_mean (f (decoded self g)))"
      by (rule conjunct2)
    then show "st ''mean_reward'' = Some (Mean (Finite (arithmetic_mean (f (decoded self g)))))"
      unfolding stored kept by (simp only:)
  qed
  with True g called stored show ?thesis by blast
qed

text \<open>
  The scenario of section 8: rewards \<open>[1.0, 2.0, 3.0]\<close> give \<open>mean_reward = 2.0\<close>.
\<close>

theorem evaluate_mean_reward_witness:
  "is_main_process scored \<and> stat_of scored ''mean_reward'' = Some (Mean (Finite 2))
     \<and> length (reward_calls (calls_of scored)) = 1"
proof -
  have "evaluate_returns scored" by code_simp
  then obtain st cs where e: "evaluate scored = Inr (st, cs)"
    by (auto simp: evaluate_returns_def split: sum.splits)
  have m: "is_main_process scored" and r: "reward_fn scored = Some (\<lambda>s. [1, 2, 3])"
    and c: "to_float32 scored = Finite" and t: "tensor_mean scored = exact_mean"
    by (simp_all add: scored_def three_prompts_def)
  have x: "exact_mean (map Finite [1, 2, 3]) = Finite (arithmetic_mean [1, 2, 3])"
    and a: "arithmetic_mean [1, 2, 3] = 2"
    by (simp_all add: exact_mean_def arithmetic_mean_def)
  from evaluate_mean_reward [OF e r] e m c t x a show ?thesis
    by (auto simp: stat_of_def calls_of_def)
qed

text \<open>
  Claim C7 as stated fails off the main process: the branch of line 160 is skipped, so a
  supplied reward function is never called and \<open>stats\<close> has no \<open>mean_reward\<close>.
\<close>

theorem evaluate_mean_reward_not_main:
  "evaluate_returns three_prompts \<and> reward_fn three_prompts \<noteq> None
     \<and> stat_of three_prompts ''mean_reward'' = None
     \<and> reward_calls (calls_of three_prompts) = []"
proof -
  have "evaluate_returns three_prompts" by code_simp
  moreover have "reward_fn three_prompts \<noteq> None" by (simp add: three_prompts_def)
  moreover have "stat_of three_prompts ''mean_reward'' = None" by code_simp
  moreover have "reward_calls (calls_of three_prompts) = []" by code_simp
  ultimately show ?thesis by simp
qed

text \<open>
  Claim C6. Whenever \<open>evaluate\<close> returns, \<open>stats\<close> holds \<open>generate_time\<close>. Off the main
  process it holds nothing else. On the main process it holds the \<open>samples\<close> table as well,
  \<open>mean_reward\<close> exactly when a reward function is supplied, and \<open>metric_time\<close> together
  with one \<open>metrics/<name>\<close> key for every metric exactly when a metric function is
  supplied; it holds no other key.
\<close>

theorem evaluate_stats_keys:
  assumes "evaluate self = Inr (st, cs)"
  shows "st ''generate_time'' = Some (Seconds (clock self 1 - clock self 0))
       \<and> (\<not> is_main_process self \<longrightarrow> dom st = {''generate_time''})
       \<and> (is_main_process self \<longrightarrow>
            (\<exists>g. gathered_samples self = Inr g
               \<and> (\<exists>cols table_rows. st ''samples'' = Some (Table cols table_rows))
               \<and> dom st =
                   {''generate_time'', ''samples''}
                   \<union> (case reward_fn self of None \<Rightarrow> {} | Some f \<Rightarrow> {''mean_reward''})
                   \<union> (case metric_fn self of
                        None \<Rightarrow> {}
                      | Some f \<Rightarrow>
                          insert ''metric_time''
                            ((\<lambda>name. ''metrics/'' @ name) ` fst ` set (f (decoded self g))))))"
proof (cases "is_main_process self")
  case False
  with evaluate_not_main(1) [OF assms] show ?thesis by simp
next
  case True
  from evaluate_main [OF assms True] obtain g column where
    g: "gathered_samples self = Inr g"
    and st: "st = (stats (add_metrics self (decoded self g) (add_reward self (decoded self g)
                  \<lparr>columns = [''samples''], columns_data = [column],
                   stats = [''generate_time'' \<mapsto> Seconds (clock self 1 - clock self 0)],
                   calls = []\<rparr>)))
               (''samples'' \<mapsto>
                  Table (columns (add_metrics self (decoded self g) (add_reward self (decoded self g)
                           \<lparr>columns = [''samples''], columns_data = [column],
                            stats = [''generate_time'' \<mapsto> Seconds (clock self 1 - clock self 0)],
                            calls = []\<rparr>)))
                        (zip_rows (columns_data (add_metrics self (decoded self g)
                           (add_reward self (decoded self g)
                           \<lparr>columns = [''samples''], columns_data = [column],
                            stats = [''generate_time'' \<mapsto> Seconds (clock self 1 - clock self 0)],
                            calls = []\<rparr>)))))"
    by blast
  have other: "\<And>d ms. mean_metrics self ms d ''generate_time'' = d ''generate_time''"
    by (rule mean_metrics_other) simp
  have time: "st ''generate_time'' = Some (Seconds (clock self 1 - clock self 0))"
    unfolding st
    by (simp add: add_metrics_fields add_reward_fields map_add_def other split: option.splits)
  have table: "\<exists>cols table_rows. st ''samples'' = Some (Table cols table_rows)"
    unfolding st by simp
  have keys: "dom st =
                   {''generate_time'', ''samples''}
                   \<union> (case reward_fn self of None \<Rightarrow> {} | Some f \<Rightarrow> {''mean_reward''})
                   \<union> (case metric_fn self of
                        None \<Rightarrow> {}
                      | Some f \<Rightarrow>
                          insert ''metric_time''
                            ((\<lambda>name. ''metrics/'' @ name) ` fst ` set (f (decoded self g))))"
    unfolding st
    by (auto simp: add_metrics_fields add_reward_fields dom_mean_metrics split: option.splits)
  from True g time table keys show ?thesis by blast
qed

text \<open>
  On the main process, with a reward function and a metric function that reports two metrics.
\<close>

theorem evaluate_stats_keys_witness:
  "\<exists>st cs. evaluate measured = Inr (st, cs)
     \<and> dom st = {''generate_time'', ''samples'', ''mean_reward'', ''metric_time'',
                  ''metrics/length'', ''metrics/rank''}"
proof -
  have "evaluate_returns measured" by code_simp
  then obtain st cs where e: "evaluate measured = Inr (st, cs)"
    by (auto simp: evaluate_returns_def split: sum.splits)
  have "is_main_process measured" and "reward_fn measured = Some (\<lambda>s. [1, 2, 3])"
    and "metric_fn measured = Some (\<lambda>s. [(''length'', [2, 2, 2]), (''rank'', [0, 1, 5])])"
    by (simp_all add: measured_def scored_def three_prompts_def)
  with evaluate_stats_keys [OF e] have
    "dom st = {''generate_time'', ''samples'', ''mean_reward'', ''metric_time'',
                  ''metrics/length'', ''metrics/rank''}"
    by auto
  with e show ?thesis by blast
qed

end
